theory Spec2Isabelle
  imports Main "HOL-Library.Sublist" "HOL-Library.Word"
begin

section \<open>Values exchanged with the device\<close>

text \<open>
  \<^verbatim>\<open>app/deviceFactory.js\<close> handles values produced by \<^verbatim>\<open>JSON.parse\<close>. They are
  modelled by the datatype \<open>json\<close>; a JavaScript value that may also be \<^verbatim>\<open>undefined\<close>
  is a \<open>json option\<close>, with \<open>None\<close> for \<^verbatim>\<open>undefined\<close>.

  Boundaries of the model: the numbers are the integers from \<open>-2^53\<close> to \<open>2^53 - 1\<close>,
  held as 54-bit words read as signed; these are numbers that JavaScript represents
  exactly and prints in plain decimal, and the type has no other number (the code only
  compares numbers with \<^verbatim>\<open>1\<close>, tests them for truthiness and turns them into
  text). A character stands for one code unit of a JavaScript string. An object is the
  list of its own properties, read by the first entry for a name; a parsed object or
  array inherits from \<^verbatim>\<open>Object.prototype\<close> or \<^verbatim>\<open>Array.prototype\<close>, which is
  taken into account wherever the code reaches an inherited property.
\<close>

datatype json =
    JNull
  | JBool bool
  | JNum "54 word"
  | JStr string
  | JArr "json list"
  | JObj "(string \<times> json) list"

type_synonym jsval = "json option"

datatype error = SyntaxError | TypeError | ProviderError

text \<open>
  Reading one of the properties the handler reads (\<^verbatim>\<open>i\<close>, \<^verbatim>\<open>cid\<close>, \<^verbatim>\<open>t\<close>,
  \<^verbatim>\<open>ver\<close>, \<^verbatim>\<open>name\<close>, \<^verbatim>\<open>key\<close>, \<^verbatim>\<open>cols\<close>, \<^verbatim>\<open>dat\<close>, \<^verbatim>\<open>opt\<close>, \<^verbatim>\<open>p\<close>,
  \<^verbatim>\<open>val\<close>): a TypeError on \<^verbatim>\<open>undefined\<close> and \<^verbatim>\<open>null\<close>, the own property of an
  object, \<^verbatim>\<open>undefined\<close> on every other value (none of these names is inherited).
\<close>

fun own_prop :: "json \<Rightarrow> string \<Rightarrow> jsval" where
  "own_prop (JObj kvs) k = map_of kvs k"
| "own_prop v k = None"

fun prop_get :: "jsval \<Rightarrow> string \<Rightarrow> error + jsval" where
  "prop_get None k = Inl TypeError"
| "prop_get (Some JNull) k = Inl TypeError"
| "prop_get (Some v) k = Inr (own_prop v k)"

text \<open>Truthiness of a value, as \<^verbatim>\<open>&&\<close> and \<^verbatim>\<open>if\<close> test it.\<close>

fun truthy :: "jsval \<Rightarrow> bool" where
  "truthy None = False"
| "truthy (Some JNull) = False"
| "truthy (Some (JBool b)) = b"
| "truthy (Some (JNum n)) = (n \<noteq> 0)"
| "truthy (Some (JStr s)) = (s \<noteq> [])"
| "truthy (Some (JArr xs)) = True"
| "truthy (Some (JObj kvs)) = True"

text \<open>Decimal text of an integer.\<close>

definition digit_char :: "nat \<Rightarrow> char" where
  "digit_char d = char_of (48 + d)"

function string_of_nat :: "nat \<Rightarrow> string" where
  "string_of_nat n =
     (if n < 10 then [digit_char n] else string_of_nat (n div 10) @ [digit_char (n mod 10)])"
  by pat_completeness auto
termination
  by (relation "measure id") auto

definition string_of_int :: "int \<Rightarrow> string" where
  "string_of_int n = (if n < 0 then CHR ''-'' # string_of_nat (nat (- n)) else string_of_nat (nat n))"

text \<open>
  Conversion to text, as \<^verbatim>\<open>toString()\<close> and the conversion of a property key do it.
  An array joins its elements with commas, \<^verbatim>\<open>null\<close> elements giving the empty text.
  A parsed object inherits \<^verbatim>\<open>Object.prototype.toString\<close> unless it has an own
  property \<^verbatim>\<open>toString\<close>, which is then not callable: a TypeError.
\<close>

fun to_string :: "json \<Rightarrow> error + string"
  and join_elems :: "json list \<Rightarrow> error + string" where
  "to_string JNull = Inr ''null''"
| "to_string (JBool b) = Inr (if b then ''true'' else ''false'')"
| "to_string (JNum n) = Inr (string_of_int (sint n))"
| "to_string (JStr s) = Inr s"
| "to_string (JArr xs) = join_elems xs"
| "to_string (JObj kvs) =
     (if map_of kvs ''toString'' \<noteq> None then Inl TypeError else Inr ''[object Object]'')"
| "join_elems [] = Inr []"
| "join_elems (x # xs) =
     (case (if x = JNull then Inr [] else to_string x) of
        Inl e \<Rightarrow> Inl e
      | Inr a \<Rightarrow>
          (if xs = [] then Inr a
           else (case join_elems xs of Inl e \<Rightarrow> Inl e | Inr b \<Rightarrow> Inr (a @ '','' @ b))))"

text \<open>Indexed read \<^verbatim>\<open>v[i]\<close> with a number \<open>i\<close>.\<close>

fun index_get :: "jsval \<Rightarrow> nat \<Rightarrow> error + jsval" where
  "index_get None i = Inl TypeError"
| "index_get (Some JNull) i = Inl TypeError"
| "index_get (Some (JArr xs)) i = Inr (if i < length xs then Some (xs ! i) else None)"
| "index_get (Some (JStr s)) i = Inr (if i < length s then Some (JStr [s ! i]) else None)"
| "index_get (Some (JObj kvs)) i = Inr (map_of kvs (string_of_nat i))"
| "index_get (Some v) i = Inr None"

text \<open>\<^verbatim>\<open>s.startsWith(p)\<close>.\<close>

definition startsWith :: "string \<Rightarrow> string \<Rightarrow> bool" where
  "startsWith s p = (take (length p) s = p)"


section \<open>The session of \<^verbatim>\<open>app/deviceFactory.js\<close>\<close>

subsection \<open>Data\<close>

text \<open>
  The prototype of the object \<^verbatim>\<open>device.props\<close>. The object is created as
  \<^verbatim>\<open>{}\<close>, so it inherits from \<^verbatim>\<open>Object.prototype\<close>; an assignment to its
  \<^verbatim>\<open>__proto__\<close> reaches the accessor inherited from there, whose setter replaces the
  prototype by \<^verbatim>\<open>null\<close> or by the parsed object or array that is assigned.
\<close>

datatype proto = ObjectPrototype | NullPrototype | ParsedPrototype json

text \<open>
  Whether an object with this prototype, and without an own property \<^verbatim>\<open>__proto__\<close>,
  finds the setter of \<^verbatim>\<open>Object.prototype.__proto__\<close> when \<^verbatim>\<open>__proto__\<close> is assigned:
  not below \<^verbatim>\<open>null\<close>, and not below a parsed object that has an own data property of
  that name (\<^verbatim>\<open>JSON.parse\<close> creates one for the key \<^verbatim>\<open>"__proto__"\<close>).
\<close>

fun protoSetter :: "proto \<Rightarrow> bool" where
  "protoSetter ObjectPrototype = True"
| "protoSetter NullPrototype = False"
| "protoSetter (ParsedPrototype (JObj kvs)) = (map_of kvs ''__proto__'' = None)"
| "protoSetter (ParsedPrototype v) = True"

text \<open>
  The setter: \<^verbatim>\<open>null\<close>, an object or an array becomes the prototype; any other value
  is ignored.
\<close>

fun setPrototype :: "jsval \<Rightarrow> proto \<Rightarrow> proto" where
  "setPrototype (Some JNull) q = NullPrototype"
| "setPrototype (Some (JObj kvs)) q = ParsedPrototype (JObj kvs)"
| "setPrototype (Some (JArr xs)) q = ParsedPrototype (JArr xs)"
| "setPrototype v q = q"

text \<open>
  The object \<^verbatim>\<open>this.device\<close>. It starts as \<^verbatim>\<open>{}\<close>, every field \<^verbatim>\<open>undefined\<close>
  (\<open>None\<close>). \<open>dev_props\<close> holds the own properties of \<^verbatim>\<open>device.props\<close>; a property
  may be present with the value \<^verbatim>\<open>undefined\<close>. \<open>dev_props_proto\<close> is the prototype
  of \<^verbatim>\<open>device.props\<close>; it has a meaning only once that object exists.
\<close>

record device =
  dev_id :: jsval
  dev_name :: jsval
  dev_address :: "string option"
  dev_port :: "nat option"
  dev_bound :: "bool option"
  dev_key :: jsval
  dev_props :: "(string \<rightharpoonup> jsval) option"
  dev_props_proto :: proto

text \<open>The plaintext messages the client builds before encryption.\<close>

datatype message =
    BindMessage jsval
  | StatusMessage "json list" jsval
  | CmdMessage "json list" "json list"

text \<open>
  The outer object \<^verbatim>\<open>request\<close> handed to \<^verbatim>\<open>JSON.stringify\<close>. \<open>req_tag = None\<close>
  means that the object has no \<^verbatim>\<open>tag\<close> property.
\<close>

record request =
  req_tcid :: jsval
  req_cid :: string
  req_i :: nat
  req_t :: string
  req_uid :: nat
  req_tag :: "string option"
  req_pack :: "string option"

datatype datagram = ScanDatagram | PackDatagram request

datatype log =
    LogConnected string nat
  | LogNewDevice jsval "string option"
  | LogBound jsval
  | LogUnknown jsval json jsval

text \<open>
  What the session does to the outside, in order: a datagram handed to
  \<^verbatim>\<open>socket.send\<close> with its port and address, a line written with
  \<^verbatim>\<open>console.log\<close>, a timer started with \<^verbatim>\<open>setInterval\<close> (its period in
  milliseconds; the timer calls \<^verbatim>\<open>_requestDeviceStatus\<close>), and a call of one of the
  three callbacks with the device. The transport and the callbacks are outside the
  model: a send always succeeds and a callback returns without touching the device.
\<close>

datatype effect =
    Send datagram "nat option" "string option"
  | Log log
  | SetInterval nat
  | OnConnected device
  | OnStatus device
  | OnUpdate device

record session =
  opt_host :: string
  opt_localPort :: nat
  device :: device
  encryptionVersion :: nat
  tag :: string
  packetSentNo :: nat
  packetReceivedNo :: nat
  emitted :: "effect list"

text \<open>
  The collaborators the file requires but does not define: \<^verbatim>\<open>JSON.parse\<close>
  (\<open>None\<close> when it throws a SyntaxError), the module \<^verbatim>\<open>./encryptionService\<close>
  and the codes of \<^verbatim>\<open>./commandEnums\<close>. They are parameters of the model.
  An encrypt operation returns its ciphertext, the one of version 2 together with a
  tag; a decrypt operation returns the payload, \<open>None\<close> when it throws.
\<close>

record services =
  json_parse :: "string \<Rightarrow> json option"
  encrypt :: "message \<Rightarrow> jsval \<Rightarrow> string"
  encrypt_v2 :: "message \<Rightarrow> jsval \<Rightarrow> string \<times> string"
  decrypt :: "json \<Rightarrow> jsval \<Rightarrow> json option"
  decrypt_v2 :: "json \<Rightarrow> jsval \<Rightarrow> json option"
  cmd_codes :: "json list"

record rinfo =
  rinfo_address :: string
  rinfo_port :: nat

subsection \<open>Operations\<close>

definition emit :: "effect \<Rightarrow> session \<Rightarrow> session" where
  "emit x s = s\<lparr>emitted := emitted s @ [x]\<rparr>"

text \<open>The constructor, up to the call of \<^verbatim>\<open>_connectToDevice\<close>.\<close>

definition Device :: "string option \<Rightarrow> nat option \<Rightarrow> session" where
  "Device host localPort =
     \<lparr>opt_host = (case host of None \<Rightarrow> ''192.168.1.255'' | Some h \<Rightarrow> if h = [] then ''192.168.1.255'' else h),
      opt_localPort = (case localPort of None \<Rightarrow> 0 | Some n \<Rightarrow> n),
      device = \<lparr>dev_id = None, dev_name = None, dev_address = None, dev_port = None,
                dev_bound = None, dev_key = None, dev_props = None,
                dev_props_proto = ObjectPrototype\<rparr>,
      encryptionVersion = 1,
      tag = [],
      packetSentNo = 0,
      packetReceivedNo = 0,
      emitted = []\<rparr>"

text \<open>
  The callback of \<^verbatim>\<open>socket.bind\<close> in \<^verbatim>\<open>_connectToDevice\<close>: the scan broadcast.
  The \<^verbatim>\<open>catch\<close> branch, which calls \<^verbatim>\<open>_connectToDevice\<close> again after 60 seconds
  when the socket cannot be bound, belongs to the transport and is not modelled.
\<close>

definition connectToDevice :: "string \<Rightarrow> session \<Rightarrow> session" where
  "connectToDevice address s =
     emit (Log (LogConnected address (opt_localPort s)))
       (emit (Send ScanDatagram (Some 7000) (Some address))
          (s\<lparr>packetSentNo := packetSentNo s + 1\<rparr>))"

definition setDevice :: "jsval \<Rightarrow> jsval \<Rightarrow> string \<Rightarrow> nat \<Rightarrow> session \<Rightarrow> session" where
  "setDevice ident name address port s =
     emit (Log (LogNewDevice ident (Some address)))
       (s\<lparr>device := (device s)\<lparr>dev_id := ident, dev_name := name,
            dev_address := Some address, dev_port := Some port,
            dev_bound := Some False, dev_props := Some Map.empty,
            dev_props_proto := ObjectPrototype\<rparr>\<rparr>)"

text \<open>
  The two branches on \<^verbatim>\<open>this.encryptionVersion\<close> shared by \<^verbatim>\<open>_sendBindRequest\<close>
  and \<^verbatim>\<open>_sendRequest\<close>: they give \<^verbatim>\<open>encryptedBoundMessage\<close> (\<open>None\<close> when neither
  branch runs) and set \<^verbatim>\<open>this.tag\<close>.
\<close>

definition encryptMessage :: "services \<Rightarrow> message \<Rightarrow> jsval \<Rightarrow> session \<Rightarrow> string option \<times> session" where
  "encryptMessage sv m k s =
     (if encryptionVersion s = 1 then (Some (encrypt sv m k), s\<lparr>tag := []\<rparr>)
      else if encryptionVersion s = 2 then
        (case encrypt_v2 sv m k of (c, g) \<Rightarrow> (Some c, s\<lparr>tag := g\<rparr>))
      else (None, s))"

definition buildRequest :: "nat \<Rightarrow> string option \<Rightarrow> session \<Rightarrow> request" where
  "buildRequest n encryptedBoundMessage s =
     \<lparr>req_tcid = dev_id (device s), req_cid = ''app'', req_i = n, req_t = ''pack'', req_uid = 0,
      req_tag = (if tag s = [] then None else Some (tag s)),
      req_pack = encryptedBoundMessage\<rparr>"

definition sendBindRequest :: "services \<Rightarrow> session \<Rightarrow> session" where
  "sendBindRequest sv s =
     (case encryptMessage sv (BindMessage (dev_id (device s))) None s of
        (encryptedBoundMessage, s1) \<Rightarrow>
          (emit (Send (PackDatagram (buildRequest 1 encryptedBoundMessage s1))
                   (dev_port (device s1)) (dev_address (device s1))) s1)
          \<lparr>packetSentNo := packetSentNo s1 + 1\<rparr>)"

definition confirmBinding :: "jsval \<Rightarrow> jsval \<Rightarrow> session \<Rightarrow> session" where
  "confirmBinding ident k s =
     emit (Log (LogBound (dev_id (device s))))
       (s\<lparr>device := (device s)\<lparr>dev_bound := Some True, dev_key := k\<rparr>\<rparr>)"

text \<open>
  \<^verbatim>\<open>_sendRequest(message, address, port)\<close>: an argument that is \<^verbatim>\<open>undefined\<close>
  defaults to the field of \<^verbatim>\<open>this.device\<close>.
\<close>

definition sendRequest :: "services \<Rightarrow> message \<Rightarrow> string option \<Rightarrow> nat option \<Rightarrow> session \<Rightarrow> session" where
  "sendRequest sv m address port s =
     (let a = (case address of None \<Rightarrow> dev_address (device s) | Some x \<Rightarrow> Some x);
          p = (case port of None \<Rightarrow> dev_port (device s) | Some x \<Rightarrow> Some x)
      in case encryptMessage sv m (dev_key (device s)) s of
        (encryptedBoundMessage, s1) \<Rightarrow>
          (emit (Send (PackDatagram (buildRequest 0 encryptedBoundMessage s1)) p a) s1)
          \<lparr>packetSentNo := packetSentNo s1 + 1\<rparr>)"

definition requestDeviceStatus :: "services \<Rightarrow> session \<Rightarrow> session" where
  "requestDeviceStatus sv s =
     sendRequest sv (StatusMessage (cmd_codes sv) (dev_id (device s)))
       (dev_address (device s)) (dev_port (device s)) s"

definition sendCommand :: "services \<Rightarrow> json list \<Rightarrow> json list \<Rightarrow> session \<Rightarrow> session" where
  "sendCommand sv commands values s = sendRequest sv (CmdMessage commands values) None None s"


subsection \<open>The handler of inbound datagrams\<close>

text \<open>
  \<^verbatim>\<open>_handleResponse\<close> has no \<^verbatim>\<open>try\<close>: an exception thrown inside it leaves the
  handler. The model returns the exception, if any, together with the session as it is
  at that moment.
\<close>

text \<open>
  ``Extract encrypted package from message'': the decrypt operation of the session's
  version, without a key when \<^verbatim>\<open>message.i === 1\<close>. When neither branch runs,
  \<^verbatim>\<open>pack\<close> stays \<^verbatim>\<open>undefined\<close>.
\<close>

definition extractPack :: "services \<Rightarrow> json \<Rightarrow> session \<Rightarrow> error + jsval" where
  "extractPack sv m s =
     (if encryptionVersion s = 1 then
        (case prop_get (Some m) ''i'' of
           Inl e \<Rightarrow> Inl e
         | Inr n \<Rightarrow>
             (case decrypt sv m (if n = Some (JNum 1) then None else dev_key (device s)) of
                None \<Rightarrow> Inl ProviderError
              | Some p \<Rightarrow> Inr (Some p)))
      else if encryptionVersion s = 2 then
        (case prop_get (Some m) ''i'' of
           Inl e \<Rightarrow> Inl e
         | Inr n \<Rightarrow>
             (case decrypt_v2 sv m (if n = Some (JNum 1) then None else dev_key (device s)) of
                None \<Rightarrow> Inl ProviderError
              | Some p \<Rightarrow> Inr (Some p)))
      else Inr None)"

text \<open>\<^verbatim>\<open>pack.ver && pack.ver.toString().startsWith('V2.')\<close>, from the value of \<^verbatim>\<open>pack.ver\<close>.\<close>

definition verIsV2 :: "jsval \<Rightarrow> error + bool" where
  "verIsV2 v =
     (case v of
        None \<Rightarrow> Inr False
      | Some x \<Rightarrow>
          (if truthy (Some x) then
             (case to_string x of Inl e \<Rightarrow> Inl e | Inr w \<Rightarrow> Inr (startsWith w ''V2.''))
           else Inr False))"

text \<open>The branch \<^verbatim>\<open>pack.t === 'dev'\<close>.\<close>

definition handleDev :: "services \<Rightarrow> json \<Rightarrow> jsval \<Rightarrow> rinfo \<Rightarrow> session \<Rightarrow> error option \<times> session" where
  "handleDev sv m pack r s =
     (case (if encryptionVersion s = 1 then
              (case prop_get pack ''ver'' of Inl e \<Rightarrow> Inl e | Inr v \<Rightarrow> verIsV2 v)
            else Inr False) of
        Inl e \<Rightarrow> (Some e, s)
      | Inr True \<Rightarrow>
          (let s1 = s\<lparr>encryptionVersion := 2\<rparr> in
           case prop_get pack ''cid'' of
             Inl e \<Rightarrow> (Some e, s1)
           | Inr c \<Rightarrow>
               (case prop_get pack ''name'' of
                  Inl e \<Rightarrow> (Some e, s1)
                | Inr n \<Rightarrow>
                    (None, sendBindRequest sv
                             (setDevice c n (rinfo_address r) (rinfo_port r) s1))))
      | Inr False \<Rightarrow>
          (case prop_get (Some m) ''cid'' of
             Inl e \<Rightarrow> (Some e, s)
           | Inr c \<Rightarrow>
               (case prop_get pack ''name'' of
                  Inl e \<Rightarrow> (Some e, s)
                | Inr n \<Rightarrow>
                    (None, sendBindRequest sv
                             (setDevice c n (rinfo_address r) (rinfo_port r) s)))))"

text \<open>The branch \<^verbatim>\<open>pack.t === 'bindok' && this.device.id\<close>.\<close>

definition handleBindok :: "json \<Rightarrow> jsval \<Rightarrow> session \<Rightarrow> error option \<times> session" where
  "handleBindok m pack s =
     (case prop_get (Some m) ''cid'' of
        Inl e \<Rightarrow> (Some e, s)
      | Inr c \<Rightarrow>
          (case prop_get pack ''key'' of
             Inl e \<Rightarrow> (Some e, s)
           | Inr k \<Rightarrow>
               (let s1 = confirmBinding c k s;
                    s2 = emit (SetInterval 3000) s1
                in (None, emit (OnConnected (device s2)) s2))))"

text \<open>
  One assignment \<^verbatim>\<open>this.device.props[col] = value\<close>, where reading the value may
  throw, and so may the conversion of \<^verbatim>\<open>col\<close> to a property key. The assignment
  creates or overwrites the own property of that name, except for the name
  \<^verbatim>\<open>__proto__\<close> while the object has no own property of that name and inherits the
  accessor: then the setter runs and no own property is created.
\<close>

definition assignProp :: "json \<Rightarrow> error + jsval \<Rightarrow> session \<Rightarrow> error option \<times> session" where
  "assignProp col v s =
     (case dev_props (device s) of
        None \<Rightarrow> (Some TypeError, s)
      | Some ps \<Rightarrow>
          (case v of
             Inl e \<Rightarrow> (Some e, s)
           | Inr x \<Rightarrow>
               (case to_string col of
                  Inl e \<Rightarrow> (Some e, s)
                | Inr k \<Rightarrow>
                    if k = ''__proto__'' \<and> ps k = None \<and> protoSetter (dev_props_proto (device s))
                    then (None, s\<lparr>device := (device s)\<lparr>dev_props_proto :=
                                   setPrototype x (dev_props_proto (device s))\<rparr>\<rparr>)
                    else (None, s\<lparr>device := (device s)\<lparr>dev_props := Some (ps(k \<mapsto> x))\<rparr>\<rparr>))))"

text \<open>
  The two \<^verbatim>\<open>forEach\<close> iterations: element \<open>i\<close> of the list of codes is assigned
  \<^verbatim>\<open>values[i]\<close>, where \<open>values\<close> is the value of the payload's field of values.
\<close>

fun forEachAssign :: "error + jsval \<Rightarrow> json list \<Rightarrow> nat \<Rightarrow> session \<Rightarrow> error option \<times> session" where
  "forEachAssign vs [] i s = (None, s)"
| "forEachAssign vs (col # cols) i s =
     (case assignProp col (case vs of Inl e \<Rightarrow> Inl e | Inr d \<Rightarrow> index_get d i) s of
        (Some e, s1) \<Rightarrow> (Some e, s1)
      | (None, s1) \<Rightarrow> forEachAssign vs cols (Suc i) s1)"

text \<open>The branch \<^verbatim>\<open>pack.t === 'dat' && this.device.bound\<close>.\<close>

definition handleDat :: "jsval \<Rightarrow> session \<Rightarrow> error option \<times> session" where
  "handleDat pack s =
     (case prop_get pack ''cols'' of
        Inr (Some (JArr cols)) \<Rightarrow>
          (case forEachAssign (prop_get pack ''dat'') cols 0 s of
             (Some e, s1) \<Rightarrow> (Some e, s1)
           | (None, s1) \<Rightarrow> (None, emit (OnStatus (device s1)) s1))
      | Inr _ \<Rightarrow> (Some TypeError, s)
      | Inl e \<Rightarrow> (Some e, s))"

text \<open>
  The branch \<^verbatim>\<open>pack.t === 'res' && this.device.bound\<close>; the value is
  \<^verbatim>\<open>pack.p !== undefined ? pack.p[i] : pack.val[i]\<close>.
\<close>

definition handleRes :: "jsval \<Rightarrow> session \<Rightarrow> error option \<times> session" where
  "handleRes pack s =
     (case prop_get pack ''opt'' of
        Inr (Some (JArr opts)) \<Rightarrow>
          (case forEachAssign
                  (case prop_get pack ''p'' of
                     Inl e \<Rightarrow> Inl e
                   | Inr p \<Rightarrow> if p \<noteq> None then Inr p else prop_get pack ''val'')
                  opts 0 s of
             (Some e, s1) \<Rightarrow> (Some e, s1)
           | (None, s1) \<Rightarrow> (None, emit (OnUpdate (device s1)) s1))
      | Inr _ \<Rightarrow> (Some TypeError, s)
      | Inl e \<Rightarrow> (Some e, s))"

definition handleResponse :: "services \<Rightarrow> string \<Rightarrow> rinfo \<Rightarrow> session \<Rightarrow> error option \<times> session" where
  "handleResponse sv msg r s0 =
     (let s = s0\<lparr>packetReceivedNo := packetReceivedNo s0 + 1\<rparr> in
      case json_parse sv msg of
        None \<Rightarrow> (Some SyntaxError, s)
      | Some m \<Rightarrow>
          (case extractPack sv m s of
             Inl e \<Rightarrow> (Some e, s)
           | Inr pack \<Rightarrow>
               (case prop_get pack ''t'' of
                  Inl e \<Rightarrow> (Some e, s)
                | Inr t \<Rightarrow>
                    if t = Some (JStr ''dev'') then handleDev sv m pack r s
                    else if t = Some (JStr ''bindok'') \<and> truthy (dev_id (device s))
                      then handleBindok m pack s
                    else if t = Some (JStr ''dat'') \<and> dev_bound (device s) = Some True
                      then handleDat pack s
                    else if t = Some (JStr ''res'') \<and> dev_bound (device s) = Some True
                      then handleRes pack s
                    else (None, emit (Log (LogUnknown t m pack)) s))))"

subsection \<open>Runs of a session\<close>

text \<open>
  The events a session reacts to: a datagram arrives, the application sends a command,
  a status timer fires, the socket reports that it is bound. A run keeps the session as
  an exception left it, so what holds of every run holds whether or not the process
  survives an uncaught exception.
\<close>

datatype event =
    Inbound string rinfo
  | Command "json list" "json list"
  | PollTick
  | SocketBound

fun step :: "services \<Rightarrow> event \<Rightarrow> session \<Rightarrow> session" where
  "step sv (Inbound msg r) s = snd (handleResponse sv msg r s)"
| "step sv (Command commands values) s = sendCommand sv commands values s"
| "step sv PollTick s = requestDeviceStatus sv s"
| "step sv SocketBound s = connectToDevice (opt_host s) s"

fun run :: "services \<Rightarrow> event list \<Rightarrow> session \<Rightarrow> session" where
  "run sv [] s = s"
| "run sv (ev # evs) s = run sv evs (step sv ev s)"


subsection \<open>Vocabulary of the properties\<close>

text \<open>
  In session \<open>s\<close> the datagram \<open>msg\<close> parses to the envelope \<open>m\<close>, which decrypts
  to the payload \<open>p\<close>.
\<close>

definition delivers :: "services \<Rightarrow> session \<Rightarrow> string \<Rightarrow> json \<Rightarrow> json \<Rightarrow> bool" where
  "delivers sv s msg m p \<longleftrightarrow> json_parse sv msg = Some m \<and> extractPack sv m s = Inr (Some p)"

text \<open>The payload that an inbound event delivers, if it delivers one.\<close>

definition payloadOf :: "services \<Rightarrow> session \<Rightarrow> event \<Rightarrow> json option" where
  "payloadOf sv s ev =
     (case ev of
        Inbound msg r \<Rightarrow>
          (case json_parse sv msg of
             None \<Rightarrow> None
           | Some m \<Rightarrow> (case extractPack sv m s of Inr (Some p) \<Rightarrow> Some p | _ \<Rightarrow> None))
      | _ \<Rightarrow> None)"

definition payloadKind :: "services \<Rightarrow> session \<Rightarrow> event \<Rightarrow> jsval" where
  "payloadKind sv s ev = (case payloadOf sv s ev of None \<Rightarrow> None | Some p \<Rightarrow> own_prop p ''t'')"

text \<open>The value that \<^verbatim>\<open>values[i]\<close> reads from a list of values.\<close>

definition valueAt :: "json list \<Rightarrow> nat \<Rightarrow> jsval" where
  "valueAt xs i = (if i < length xs then Some (xs ! i) else None)"

text \<open>
  The own entry of the device's properties for a name: \<open>None\<close> when there is no such
  own property (or no properties object), \<open>Some v\<close> when the property holds \<open>v\<close>.
\<close>

definition property :: "session \<Rightarrow> string \<Rightarrow> jsval option" where
  "property s k = (case dev_props (device s) of None \<Rightarrow> None | Some ps \<Rightarrow> ps k)"

text \<open>The number of calls of the connected-callback among the effects.\<close>

fun connectedCalls :: "effect list \<Rightarrow> nat" where
  "connectedCalls [] = 0"
| "connectedCalls (OnConnected d # xs) = Suc (connectedCalls xs)"
| "connectedCalls (x # xs) = connectedCalls xs"

text \<open>
  The number of events of a run that deliver a \<^verbatim>\<open>bindok\<close> payload while the device
  id is set.
\<close>

fun bindoksHonoured :: "services \<Rightarrow> event list \<Rightarrow> session \<Rightarrow> nat" where
  "bindoksHonoured sv [] s = 0"
| "bindoksHonoured sv (ev # evs) s =
     (if payloadKind sv s ev = Some (JStr ''bindok'') \<and> truthy (dev_id (device s)) then 1 else 0)
       + bindoksHonoured sv evs (step sv ev s)"

text \<open>No event of the run delivers a \<^verbatim>\<open>dev\<close> payload.\<close>

fun noDevReply :: "services \<Rightarrow> event list \<Rightarrow> session \<Rightarrow> bool" where
  "noDevReply sv [] s = True"
| "noDevReply sv (ev # evs) s =
     (payloadKind sv s ev \<noteq> Some (JStr ''dev'') \<and> noDevReply sv evs (step sv ev s))"

text \<open>
  What every reachable session satisfies: the version is 1 or 2, and a device without
  properties object has no id and is not bound.
\<close>

definition sessionInv :: "session \<Rightarrow> bool" where
  "sessionInv s \<longleftrightarrow>
     (encryptionVersion s = 1 \<or> encryptionVersion s = 2) \<and>
     (dev_props (device s) = None \<longrightarrow> dev_id (device s) = None \<and> dev_bound (device s) \<noteq> Some True)"

subsection \<open>A sample provider and sample datagrams\<close>

text \<open>
  A provider for concrete runs: the parser is a table of datagram texts, the ``cipher''
  carries the payload in the clear as the envelope's \<^verbatim>\<open>pack\<close> (decrypting throws when
  the envelope has none), and the encrypt operations return fixed texts.
\<close>

definition devPayload :: json where
  "devPayload =
     JObj [(''t'', JStr ''dev''), (''cid'', JStr ''P0''), (''name'', JStr ''AC1'')]"

definition devEnvelope :: json where
  "devEnvelope = JObj [(''t'', JStr ''pack''), (''i'', JNum 1), (''cid'', JStr ''A1B2''), (''pack'', devPayload)]"

definition devText :: string where
  \<open>devText = ''{"t":"pack","i":1,"cid":"A1B2","pack":{"t":"dev","cid":"P0","name":"AC1"}}''\<close>

definition devV2Payload :: json where
  "devV2Payload =
     JObj [(''t'', JStr ''dev''), (''cid'', JStr ''C3D4''), (''name'', JStr ''AC2''), (''ver'', JStr ''V2.0.0'')]"

definition devV2Envelope :: json where
  "devV2Envelope = JObj [(''t'', JStr ''pack''), (''i'', JNum 1), (''cid'', JStr ''E9''), (''pack'', devV2Payload)]"

definition devV2Text :: string where
  \<open>devV2Text = ''{"t":"pack","i":1,"cid":"E9","pack":{"t":"dev","cid":"C3D4","name":"AC2","ver":"V2.0.0"}}''\<close>

definition bindokPayload :: json where
  "bindokPayload =
     JObj [(''t'', JStr ''bindok''), (''key'', JStr ''K123'')]"

definition bindokEnvelope :: json where
  "bindokEnvelope = JObj [(''t'', JStr ''pack''), (''i'', JNum 1), (''cid'', JStr ''X7''), (''pack'', bindokPayload)]"

definition bindokText :: string where
  \<open>bindokText = ''{"t":"pack","i":1,"cid":"X7","pack":{"t":"bindok","key":"K123"}}''\<close>

definition datPayload :: json where
  "datPayload =
     JObj [(''t'', JStr ''dat''), (''cols'', JArr [JStr ''Pow'', JStr ''SetTem'']), (''dat'', JArr [JNum 1, JNum 24])]"

definition datEnvelope :: json where
  "datEnvelope = JObj [(''t'', JStr ''pack''), (''i'', JNum 0), (''pack'', datPayload)]"

definition datText :: string where
  \<open>datText = ''{"t":"pack","i":0,"pack":{"t":"dat","cols":["Pow","SetTem"],"dat":[1,24]}}''\<close>

definition dat2Payload :: json where
  "dat2Payload =
     JObj [(''t'', JStr ''dat''), (''cols'', JArr [JStr ''Pow'']), (''dat'', JArr [JNum 0])]"

definition dat2Envelope :: json where
  "dat2Envelope = JObj [(''t'', JStr ''pack''), (''i'', JNum 0), (''pack'', dat2Payload)]"

definition dat2Text :: string where
  \<open>dat2Text = ''{"t":"pack","i":0,"pack":{"t":"dat","cols":["Pow"],"dat":[0]}}''\<close>

definition resPayload :: json where
  "resPayload =
     JObj [(''t'', JStr ''res''), (''opt'', JArr [JStr ''Pow'']), (''val'', JArr [JNum 0])]"

definition resEnvelope :: json where
  "resEnvelope = JObj [(''t'', JStr ''pack''), (''i'', JNum 0), (''pack'', resPayload)]"

definition resText :: string where
  \<open>resText = ''{"t":"pack","i":0,"pack":{"t":"res","opt":["Pow"],"val":[0]}}''\<close>

definition res2Payload :: json where
  "res2Payload =
     JObj [(''t'', JStr ''res''), (''opt'', JArr [JStr ''SetTem'']), (''p'', JArr [JNum 25]), (''val'', JArr [JNum 99])]"

definition res2Envelope :: json where
  "res2Envelope = JObj [(''t'', JStr ''pack''), (''i'', JNum 0), (''pack'', res2Payload)]"

definition res2Text :: string where
  \<open>res2Text = ''{"t":"pack","i":0,"pack":{"t":"res","opt":["SetTem"],"p":[25],"val":[99]}}''\<close>

definition sealedEnvelope :: json where
  "sealedEnvelope = JObj [(''t'', JStr ''pack''), (''i'', JNum 0), (''cid'', JStr ''A1B2'')]"

definition sealedText :: string where
  \<open>sealedText = ''{"t":"pack","i":0,"cid":"A1B2"}''\<close>

definition malformedText :: string where
  \<open>malformedText = ''{"t":"pack",''\<close>

definition sampleWire :: "(string \<times> json) list" where
  "sampleWire =
     [(devText, devEnvelope), (devV2Text, devV2Envelope), (bindokText, bindokEnvelope),
      (datText, datEnvelope), (dat2Text, dat2Envelope), (resText, resEnvelope),
      (res2Text, res2Envelope), (sealedText, sealedEnvelope)]"

definition sampleDecrypt :: "json \<Rightarrow> jsval \<Rightarrow> json option" where
  "sampleDecrypt m k = own_prop m ''pack''"

definition sampleServices :: services where
  "sampleServices =
     \<lparr>json_parse = map_of sampleWire,
      encrypt = (\<lambda>m k. ''c1''),
      encrypt_v2 = (\<lambda>m k. (''c2'', ''g2'')),
      decrypt = sampleDecrypt,
      decrypt_v2 = sampleDecrypt,
      cmd_codes = [JStr ''Pow'', JStr ''SetTem'']\<rparr>"

definition sampleRinfo :: rinfo where
  "sampleRinfo = \<lparr>rinfo_address = ''10.0.0.5'', rinfo_port = 7000\<rparr>"

definition fresh :: session where
  "fresh = Device None None"

definition recv :: "string \<Rightarrow> event" where
  "recv txt = Inbound txt sampleRinfo"


section \<open>Properties\<close>

subsection \<open>Evaluation of the samples\<close>

lemmas sample_defs =
  sampleServices_def sampleWire_def sampleDecrypt_def sampleRinfo_def fresh_def recv_def
  devPayload_def devEnvelope_def devText_def devV2Payload_def devV2Envelope_def devV2Text_def
  bindokPayload_def bindokEnvelope_def bindokText_def datPayload_def datEnvelope_def datText_def
  dat2Payload_def dat2Envelope_def dat2Text_def resPayload_def resEnvelope_def resText_def
  res2Payload_def res2Envelope_def res2Text_def
  sealedEnvelope_def sealedText_def malformedText_def

lemmas model_defs =
  Device_def handleResponse_def extractPack_def handleDev_def handleBindok_def handleDat_def
  handleRes_def assignProp_def verIsV2_def startsWith_def setDevice_def sendBindRequest_def
  sendRequest_def requestDeviceStatus_def sendCommand_def connectToDevice_def encryptMessage_def
  buildRequest_def emit_def confirmBinding_def delivers_def payloadOf_def payloadKind_def
  valueAt_def property_def Let_def

subsection \<open>Reading the envelope and the payload\<close>

lemma extractPack_received [simp]:
  "extractPack sv m (s\<lparr>packetReceivedNo := n\<rparr>) = extractPack sv m s"
  by (simp add: extractPack_def split: sum.splits option.splits)

lemma prop_get_own: "v \<noteq> JNull \<Longrightarrow> prop_get (Some v) k = Inr (own_prop v k)"
  by (cases v) simp_all

lemma own_prop_not_null: "own_prop p k = Some v \<Longrightarrow> p \<noteq> JNull"
  by (cases p) simp_all

lemma extractPack_not_null: "extractPack sv m s = Inr (Some p) \<Longrightarrow> m \<noteq> JNull"
  by (auto simp: extractPack_def split: if_splits sum.splits option.splits)

lemma delivers_envelope: "delivers sv s msg m p \<Longrightarrow> prop_get (Some m) k = Inr (own_prop m k)"
  using extractPack_not_null[of sv m s p] by (simp add: delivers_def prop_get_own)

lemma payload_prop: "own_prop p k = Some v \<Longrightarrow> prop_get (Some p) k' = Inr (own_prop p k')"
  by (simp add: prop_get_own own_prop_not_null)

text \<open>The dispatch of the handler on the kind of a delivered payload.\<close>

lemma handleResponse_delivered:
  assumes "delivers sv s msg m p" and "own_prop p ''t'' = Some (JStr k)"
  shows "handleResponse sv msg r s =
     (let s1 = s\<lparr>packetReceivedNo := packetReceivedNo s + 1\<rparr> in
      if k = ''dev'' then handleDev sv m (Some p) r s1
      else if k = ''bindok'' \<and> truthy (dev_id (device s)) then handleBindok m (Some p) s1
      else if k = ''dat'' \<and> dev_bound (device s) = Some True then handleDat (Some p) s1
      else if k = ''res'' \<and> dev_bound (device s) = Some True then handleRes (Some p) s1
      else (None, emit (Log (LogUnknown (Some (JStr k)) m (Some p))) s1))"
  using assms payload_prop[OF assms(2), of "''t''"]
  by (simp add: handleResponse_def delivers_def Let_def)

lemma handleBindok_delivered:
  assumes "delivers sv s msg m p" and "own_prop p ''t'' = Some (JStr k)"
  shows "handleBindok m (Some p) s1 =
     (None, emit (OnConnected (device (confirmBinding (own_prop m ''cid'') (own_prop p ''key'') s1)))
              (emit (SetInterval 3000) (confirmBinding (own_prop m ''cid'') (own_prop p ''key'') s1)))"
  using delivers_envelope[OF assms(1), of "''cid''"] payload_prop[OF assms(2), of "''key''"]
  by (simp add: handleBindok_def Let_def emit_def)

subsection \<open>What the operations leave unchanged\<close>

lemma emit_fields [simp]:
  "device (emit x s) = device s"
  "encryptionVersion (emit x s) = encryptionVersion s"
  "emitted (emit x s) = emitted s @ [x]"
  by (simp_all add: emit_def)

lemma connectedCalls_append [simp]:
  "connectedCalls (xs @ ys) = connectedCalls xs + connectedCalls ys"
  by (induction xs rule: connectedCalls.induct) simp_all

lemma encryptMessage_fields:
  assumes "encryptMessage sv ms k s = (c, s1)"
  shows "device s1 = device s"
    and "encryptionVersion s1 = encryptionVersion s"
    and "emitted s1 = emitted s"
  using assms by (auto simp: encryptMessage_def split: if_splits prod.splits)

lemma sendBindRequest_fields [simp]:
  "device (sendBindRequest sv s) = device s"
  "encryptionVersion (sendBindRequest sv s) = encryptionVersion s"
  "connectedCalls (emitted (sendBindRequest sv s)) = connectedCalls (emitted s)"
  by (auto simp: sendBindRequest_def split: prod.splits dest: encryptMessage_fields)

lemma sendRequest_fields [simp]:
  "device (sendRequest sv ms a p s) = device s"
  "encryptionVersion (sendRequest sv ms a p s) = encryptionVersion s"
  "connectedCalls (emitted (sendRequest sv ms a p s)) = connectedCalls (emitted s)"
  by (auto simp: sendRequest_def Let_def split: prod.splits dest: encryptMessage_fields)

lemma setDevice_fields [simp]:
  "device (setDevice c n a p s) =
     (device s)\<lparr>dev_id := c, dev_name := n, dev_address := Some a, dev_port := Some p,
                dev_bound := Some False, dev_props := Some Map.empty,
                dev_props_proto := ObjectPrototype\<rparr>"
  "encryptionVersion (setDevice c n a p s) = encryptionVersion s"
  "connectedCalls (emitted (setDevice c n a p s)) = connectedCalls (emitted s)"
  by (simp_all add: setDevice_def)

lemma confirmBinding_fields [simp]:
  "device (confirmBinding c k s) = (device s)\<lparr>dev_bound := Some True, dev_key := k\<rparr>"
  "encryptionVersion (confirmBinding c k s) = encryptionVersion s"
  "emitted (confirmBinding c k s) = emitted s @ [Log (LogBound (dev_id (device s)))]"
  by (simp_all add: confirmBinding_def)

text \<open>What the two iterations leave alone, and what they do to the properties.\<close>

lemma assignProp_frame:
  assumes "assignProp col v s = (x, s')"
  shows "s' = s\<lparr>device := (device s)\<lparr>dev_props := dev_props (device s'),
                                       dev_props_proto := dev_props_proto (device s')\<rparr>\<rparr>"
    and "dev_props (device s) = None \<Longrightarrow> dev_props (device s') = None"
    and "dev_props (device s) = Some ps \<Longrightarrow> \<exists>ps'. dev_props (device s') = Some ps' \<and> dom ps \<subseteq> dom ps'"
  using assms
  by (auto simp: assignProp_def split: option.splits sum.splits if_splits)

lemma forEachAssign_frame_all:
  assumes "forEachAssign vs cols i s = (x, s')"
  shows "s' = s\<lparr>device := (device s)\<lparr>dev_props := dev_props (device s'),
                                       dev_props_proto := dev_props_proto (device s')\<rparr>\<rparr> \<and>
         (dev_props (device s) = None \<longrightarrow> dev_props (device s') = None) \<and>
         (\<forall>ps. dev_props (device s) = Some ps \<longrightarrow>
               (\<exists>ps'. dev_props (device s') = Some ps' \<and> dom ps \<subseteq> dom ps'))"
  using assms
proof (induction cols arbitrary: i s)
  case Nil
  then show ?case by auto
next
  case (Cons col cols)
  let ?a = "assignProp col (case vs of Inl e \<Rightarrow> Inl e | Inr d \<Rightarrow> index_get d i) s"
  obtain y s1 where a: "?a = (y, s1)"
    by (cases ?a)
  note a1 = assignProp_frame[OF a]
  show ?case
  proof (cases y)
    case (Some e)
    with a have "?a = (Some e, s1)" by simp
    with Cons.prems have "s' = s1" by simp
    with a1 show ?thesis by auto
  next
    case None
    with a have "?a = (None, s1)" by simp
    with Cons.prems have "forEachAssign vs cols (Suc i) s1 = (x, s')" by simp
    note ih = Cons.IH[OF this]
    have "s' = s\<lparr>device := (device s)\<lparr>dev_props := dev_props (device s'),
                                         dev_props_proto := dev_props_proto (device s')\<rparr>\<rparr>"
    proof -
      have "s' = s1\<lparr>device := (device s1)\<lparr>dev_props := dev_props (device s'),
                                             dev_props_proto := dev_props_proto (device s')\<rparr>\<rparr>"
        using ih by simp
      also have "\<dots> = s\<lparr>device := (device s)\<lparr>dev_props := dev_props (device s'),
                                             dev_props_proto := dev_props_proto (device s')\<rparr>\<rparr>"
        using arg_cong[OF a1(1), of "\<lambda>t. t\<lparr>device := (device t)\<lparr>dev_props := dev_props (device s'),
                                             dev_props_proto := dev_props_proto (device s')\<rparr>\<rparr>"]
        by simp
      finally show ?thesis .
    qed
    moreover have "dev_props (device s) = None \<longrightarrow> dev_props (device s') = None"
      using ih a1(2) by simp
    moreover have "\<forall>ps. dev_props (device s) = Some ps \<longrightarrow>
               (\<exists>ps'. dev_props (device s') = Some ps' \<and> dom ps \<subseteq> dom ps')"
    proof (intro allI impI)
      fix ps assume "dev_props (device s) = Some ps"
      from a1(3)[OF this] obtain ps1 where p1: "dev_props (device s1) = Some ps1" "dom ps \<subseteq> dom ps1"
        by blast
      with ih obtain ps' where "dev_props (device s') = Some ps'" "dom ps1 \<subseteq> dom ps'" by blast
      with p1 show "\<exists>ps'. dev_props (device s') = Some ps' \<and> dom ps \<subseteq> dom ps'" by blast
    qed
    ultimately show ?thesis by blast
  qed
qed

lemma forEachAssign_array:
  assumes "dev_props (device s) = Some ps" and "map to_string cols = map Inr ks"
    and "''__proto__'' \<notin> set ks"
  shows "forEachAssign (Inr (Some (JArr xs))) cols i s =
     (None, s\<lparr>device := (device s)\<lparr>dev_props :=
                Some (ps(ks [\<mapsto>] map (valueAt xs) [i..<i + length cols]))\<rparr>\<rparr>)"
  using assms
proof (induction cols arbitrary: i s ps ks)
  case Nil
  then show ?case by simp
next
  case (Cons col cols)
  from Cons.prems(2) obtain k ks' where ks: "ks = k # ks'" "to_string col = Inr k"
    "map to_string cols = map Inr ks'"
    by (cases ks) auto
  from Cons.prems(3) ks(1) have np: "k \<noteq> ''__proto__''" "''__proto__'' \<notin> set ks'"
    by auto
  let ?s1 = "s\<lparr>device := (device s)\<lparr>dev_props := Some (ps(k \<mapsto> valueAt xs i))\<rparr>\<rparr>"
  have a: "assignProp col (index_get (Some (JArr xs)) i) s = (None, ?s1)"
    using Cons.prems(1) ks(2) np(1) by (simp add: assignProp_def valueAt_def)
  have p1: "dev_props (device ?s1) = Some (ps(k \<mapsto> valueAt xs i))"
    by simp
  have u: "[i..<Suc (i + length cols)] = i # [Suc i..<Suc (i + length cols)]"
    by (rule upt_conv_Cons) simp
  have "forEachAssign (Inr (Some (JArr xs))) (col # cols) i s =
        forEachAssign (Inr (Some (JArr xs))) cols (Suc i) ?s1"
    using a by simp
  also have "\<dots> = (None, ?s1\<lparr>device := (device ?s1)\<lparr>dev_props :=
                Some ((ps(k \<mapsto> valueAt xs i))(ks' [\<mapsto>] map (valueAt xs) [Suc i..<Suc i + length cols]))\<rparr>\<rparr>)"
    by (rule Cons.IH[OF p1 ks(3) np(2)])
  also have "\<dots> = (None, s\<lparr>device := (device s)\<lparr>dev_props :=
                Some (ps(ks [\<mapsto>] map (valueAt xs) [i..<i + length (col # cols)]))\<rparr>\<rparr>)"
    by (simp add: ks(1) u del: upt_Suc)
  finally show ?case .
qed

lemma map_upds_last:
  assumes "length ks = length vs" and "j < length ks"
    and "\<forall>j'. j < j' \<and> j' < length ks \<longrightarrow> ks ! j' \<noteq> ks ! j"
  shows "(m(ks [\<mapsto>] vs)) (ks ! j) = Some (vs ! j)"
  using assms
proof (induction ks arbitrary: vs j m)
  case Nil
  then show ?case by simp
next
  case (Cons k ks)
  then obtain v vs' where vs: "vs = v # vs'" by (cases vs) auto
  show ?case
  proof (cases j)
    case 0
    have "k \<notin> set ks"
    proof
      assume "k \<in> set ks"
      then obtain n where "n < length ks" "ks ! n = k" by (auto simp: in_set_conv_nth)
      with Cons.prems(3) 0 show False by (auto dest: spec[of _ "Suc n"])
    qed
    then show ?thesis using 0 vs by (simp add: map_upds_apply_nontin)
  next
    case (Suc n)
    have l: "\<forall>j'. n < j' \<and> j' < length ks \<longrightarrow> ks ! j' \<noteq> ks ! n"
      using Cons.prems(3) Suc by (auto dest: spec[of _ "Suc _"])
    have e: "length ks = length vs'" and b: "n < length ks"
      using Cons.prems(1,2) Suc vs by simp_all
    have "((m(k \<mapsto> v))(ks [\<mapsto>] vs')) (ks ! n) = Some (vs' ! n)"
      by (rule Cons.IH[OF e b l])
    then show ?thesis using Suc vs by simp
  qed
qed

subsection \<open>Handshake reply\<close>

lemma startsWith_prefix: "startsWith s p = prefix p s"
  unfolding startsWith_def prefix_def by (metis append_eq_conv_conj)

lemma verIsV2_text:
  "verIsV2 None = Inr False"
  "verIsV2 (Some (JStr w)) = Inr (prefix ''V2.'' w)"
  by (auto simp: verIsV2_def startsWith_prefix)

lemma handleDev_delivered:
  assumes "delivers sv s msg m p" and "own_prop p ''t'' = Some (JStr k)"
  shows "handleDev sv m (Some p) r s1 =
     (case (if encryptionVersion s1 = 1 then verIsV2 (own_prop p ''ver'') else Inr False) of
        Inl e \<Rightarrow> (Some e, s1)
      | Inr b \<Rightarrow>
          (None, sendBindRequest sv
             (setDevice (if b then own_prop p ''cid'' else own_prop m ''cid'') (own_prop p ''name'')
                (rinfo_address r) (rinfo_port r)
                (if b then s1\<lparr>encryptionVersion := 2\<rparr> else s1))))"
  using delivers_envelope[OF assms(1), of "''cid''"]
  by (simp add: handleDev_def Let_def payload_prop[OF assms(2)] split: sum.splits bool.splits)

text \<open>
  C1. A \<^verbatim>\<open>dev\<close> payload processed while the session is on version 1, its version
  field absent or a text: when the text starts with \<^verbatim>\<open>V2.\<close> the version becomes 2 and
  the device id is the id of the payload, otherwise the version stays 1 and the device
  id is the id of the envelope. In both cases the handler ends by sending the bind
  request, built for the device id and encrypted without a key by the operation of the
  version now in force.
\<close>

theorem C1_dev_negotiation:
  assumes "encryptionVersion s = 1"
    and "delivers sv s msg m p"
    and "own_prop p ''t'' = Some (JStr ''dev'')"
    and "own_prop p ''ver'' = None \<or> own_prop p ''ver'' = Some (JStr w)"
    and "handleResponse sv msg r s = (x, s')"
  shows "x = None \<and>
    (if own_prop p ''ver'' \<noteq> None \<and> prefix ''V2.'' w
     then encryptionVersion s' = 2 \<and> dev_id (device s') = own_prop p ''cid'' \<and>
       emitted s' = emitted s @
         [Log (LogNewDevice (own_prop p ''cid'') (Some (rinfo_address r))),
          Send (PackDatagram
                 \<lparr>req_tcid = own_prop p ''cid'', req_cid = ''app'', req_i = 1, req_t = ''pack'',
                  req_uid = 0,
                  req_tag = (if snd (encrypt_v2 sv (BindMessage (own_prop p ''cid'')) None) = [] then None
                             else Some (snd (encrypt_v2 sv (BindMessage (own_prop p ''cid'')) None))),
                  req_pack = Some (fst (encrypt_v2 sv (BindMessage (own_prop p ''cid'')) None))\<rparr>)
            (Some (rinfo_port r)) (Some (rinfo_address r))]
     else encryptionVersion s' = 1 \<and> dev_id (device s') = own_prop m ''cid'' \<and>
       emitted s' = emitted s @
         [Log (LogNewDevice (own_prop m ''cid'') (Some (rinfo_address r))),
          Send (PackDatagram
                 \<lparr>req_tcid = own_prop m ''cid'', req_cid = ''app'', req_i = 1, req_t = ''pack'',
                  req_uid = 0, req_tag = None,
                  req_pack = Some (encrypt sv (BindMessage (own_prop m ''cid'')) None)\<rparr>)
            (Some (rinfo_port r)) (Some (rinfo_address r))])"
  using assms(1,4,5)
  by (auto simp: handleResponse_delivered[OF assms(2,3)] handleDev_delivered[OF assms(2,3)]
      verIsV2_text Let_def sendBindRequest_def setDevice_def encryptMessage_def buildRequest_def
      emit_def split: prod.splits)

theorem C1_dev_negotiation_witness:
  "encryptionVersion fresh = 1 \<and>
   delivers sampleServices fresh devV2Text devV2Envelope devV2Payload \<and>
   own_prop devV2Payload ''t'' = Some (JStr ''dev'') \<and>
   own_prop devV2Payload ''ver'' = Some (JStr ''V2.0.0'') \<and> prefix ''V2.'' ''V2.0.0'' \<and>
   encryptionVersion (run sampleServices [recv devV2Text] fresh) = 2 \<and>
   dev_id (device (run sampleServices [recv devV2Text] fresh)) = Some (JStr ''C3D4'') \<and>
   delivers sampleServices fresh devText devEnvelope devPayload \<and>
   own_prop devPayload ''t'' = Some (JStr ''dev'') \<and>
   own_prop devPayload ''ver'' = None \<and>
   encryptionVersion (run sampleServices [recv devText] fresh) = 1 \<and>
   dev_id (device (run sampleServices [recv devText] fresh)) = Some (JStr ''A1B2'')"
proof -
  let ?r = "handleResponse sampleServices devV2Text sampleRinfo fresh"
  let ?q = "handleResponse sampleServices devText sampleRinfo fresh"
  have v: "encryptionVersion fresh = 1"
    by (simp add: fresh_def Device_def)
  have d2: "delivers sampleServices fresh devV2Text devV2Envelope devV2Payload"
    and d1: "delivers sampleServices fresh devText devEnvelope devPayload"
    by (simp_all add: sample_defs model_defs)
  have k2: "own_prop devV2Payload ''t'' = Some (JStr ''dev'')"
    and w2: "own_prop devV2Payload ''ver'' = Some (JStr ''V2.0.0'')"
    and c2: "own_prop devV2Payload ''cid'' = Some (JStr ''C3D4'')"
    by (simp_all add: devV2Payload_def)
  have k1: "own_prop devPayload ''t'' = Some (JStr ''dev'')"
    and w1: "own_prop devPayload ''ver'' = None"
    by (simp_all add: devPayload_def)
  have c1: "own_prop devEnvelope ''cid'' = Some (JStr ''A1B2'')"
    by (simp add: devEnvelope_def)
  have o2: "own_prop devV2Payload ''ver'' = None \<or> own_prop devV2Payload ''ver'' = Some (JStr ''V2.0.0'')"
    using w2 by simp
  have o1: "own_prop devPayload ''ver'' = None \<or> own_prop devPayload ''ver'' = Some (JStr [])"
    using w1 by simp
  have r2: "?r = (fst ?r, snd ?r)" and r1: "?q = (fst ?q, snd ?q)"
    by simp_all
  have e2: "run sampleServices [recv devV2Text] fresh = snd ?r"
    and e1: "run sampleServices [recv devText] fresh = snd ?q"
    by (simp_all add: recv_def)
  have px: "prefix ''V2.'' ''V2.0.0''"
    by (simp add: prefix_def)
  from C1_dev_negotiation[OF v d2 k2 o2 r2] C1_dev_negotiation[OF v d1 k1 o1 r1]
    v d1 d2 k1 k2 w1 w2 c1 c2 e1 e2 px
  show ?thesis by simp
qed

subsection \<open>The handler, case by case\<close>

lemma forEachAssign_props:
  assumes "forEachAssign vs cols i s = (x, s')"
  obtains q g where "s' = s\<lparr>device := (device s)\<lparr>dev_props := q, dev_props_proto := g\<rparr>\<rparr>"
    and "dev_props (device s) = None \<longrightarrow> q = None"
    and "\<forall>ps. dev_props (device s) = Some ps \<longrightarrow> (\<exists>ps'. q = Some ps' \<and> dom ps \<subseteq> dom ps')"
proof (rule that[where q="dev_props (device s')" and g="dev_props_proto (device s')"])
  note f = forEachAssign_frame_all[OF assms]
  show "s' = s\<lparr>device := (device s)\<lparr>dev_props := dev_props (device s'),
                                         dev_props_proto := dev_props_proto (device s')\<rparr>\<rparr>"
    by (rule f[THEN conjunct1])
  show "dev_props (device s) = None \<longrightarrow> dev_props (device s') = None"
    by (rule f[THEN conjunct2, THEN conjunct1])
  show "\<forall>ps. dev_props (device s) = Some ps \<longrightarrow>
          (\<exists>ps'. dev_props (device s') = Some ps' \<and> dom ps \<subseteq> dom ps')"
    by (rule f[THEN conjunct2, THEN conjunct2])
qed

lemma handleDat_frame:
  assumes "handleDat pack s = (x, s')"
  obtains q g where
    "s' = s\<lparr>device := (device s)\<lparr>dev_props := q, dev_props_proto := g\<rparr>,
            emitted := emitted s @ (if x = None then [OnStatus ((device s)\<lparr>dev_props := q, dev_props_proto := g\<rparr>)] else [])\<rparr>"
    and "dev_props (device s) = None \<longrightarrow> q = None"
    and "\<forall>ps. dev_props (device s) = Some ps \<longrightarrow> (\<exists>ps'. q = Some ps' \<and> dom ps \<subseteq> dom ps')"
proof (cases "\<exists>cols. prop_get pack ''cols'' = Inr (Some (JArr cols))")
  case False
  with assms have "x \<noteq> None" "s' = s"
    by (auto simp: handleDat_def split: sum.splits option.splits json.splits)
  then show ?thesis
    using that[where q="dev_props (device s)" and g="dev_props_proto (device s)"] by auto
next
  case True
  then obtain cols where c: "prop_get pack ''cols'' = Inr (Some (JArr cols))" by blast
  obtain y s1 where f: "forEachAssign (prop_get pack ''dat'') cols 0 s = (y, s1)"
    by (cases "forEachAssign (prop_get pack ''dat'') cols 0 s")
  obtain q g where
    q: "s1 = s\<lparr>device := (device s)\<lparr>dev_props := q, dev_props_proto := g\<rparr>\<rparr>"
    "dev_props (device s) = None \<longrightarrow> q = None"
    "\<forall>ps. dev_props (device s) = Some ps \<longrightarrow> (\<exists>ps'. q = Some ps' \<and> dom ps \<subseteq> dom ps')"
    by (rule forEachAssign_props[OF f])
  have "x = y" "s' = (if y = None then emit (OnStatus (device s1)) s1 else s1)"
    using assms c f by (auto simp: handleDat_def split: option.splits)
  with q(1) have "s' = s\<lparr>device := (device s)\<lparr>dev_props := q, dev_props_proto := g\<rparr>,
            emitted := emitted s @ (if x = None then [OnStatus ((device s)\<lparr>dev_props := q, dev_props_proto := g\<rparr>)] else [])\<rparr>"
    by (simp add: emit_def)
  from this q(2,3) show ?thesis by (rule that)
qed

lemma handleRes_frame:
  assumes "handleRes pack s = (x, s')"
  obtains q g where
    "s' = s\<lparr>device := (device s)\<lparr>dev_props := q, dev_props_proto := g\<rparr>,
            emitted := emitted s @ (if x = None then [OnUpdate ((device s)\<lparr>dev_props := q, dev_props_proto := g\<rparr>)] else [])\<rparr>"
    and "dev_props (device s) = None \<longrightarrow> q = None"
    and "\<forall>ps. dev_props (device s) = Some ps \<longrightarrow> (\<exists>ps'. q = Some ps' \<and> dom ps \<subseteq> dom ps')"
proof (cases "\<exists>opts. prop_get pack ''opt'' = Inr (Some (JArr opts))")
  case False
  with assms have "x \<noteq> None" "s' = s"
    by (auto simp: handleRes_def split: sum.splits option.splits json.splits)
  then show ?thesis
    using that[where q="dev_props (device s)" and g="dev_props_proto (device s)"] by auto
next
  case True
  then obtain opts where c: "prop_get pack ''opt'' = Inr (Some (JArr opts))" by blast
  let ?vs = "case prop_get pack ''p'' of Inl e \<Rightarrow> Inl e
             | Inr p \<Rightarrow> if p \<noteq> None then Inr p else prop_get pack ''val''"
  obtain y s1 where f: "forEachAssign ?vs opts 0 s = (y, s1)"
    by (cases "forEachAssign ?vs opts 0 s")
  obtain q g where
    q: "s1 = s\<lparr>device := (device s)\<lparr>dev_props := q, dev_props_proto := g\<rparr>\<rparr>"
    "dev_props (device s) = None \<longrightarrow> q = None"
    "\<forall>ps. dev_props (device s) = Some ps \<longrightarrow> (\<exists>ps'. q = Some ps' \<and> dom ps \<subseteq> dom ps')"
    by (rule forEachAssign_props[OF f])
  have "x = y" "s' = (if y = None then emit (OnUpdate (device s1)) s1 else s1)"
    using assms c f by (auto simp: handleRes_def split: option.splits)
  with q(1) have "s' = s\<lparr>device := (device s)\<lparr>dev_props := q, dev_props_proto := g\<rparr>,
            emitted := emitted s @ (if x = None then [OnUpdate ((device s)\<lparr>dev_props := q, dev_props_proto := g\<rparr>)] else [])\<rparr>"
    by (simp add: emit_def)
  from this q(2,3) show ?thesis by (rule that)
qed

text \<open>The handler, by the kind of what it received.\<close>

lemma handleResponse_cases:
  obtains
    (Thrown) e where
      "handleResponse sv msg r s = (Some e, s\<lparr>packetReceivedNo := packetReceivedNo s + 1\<rparr>)"
      "payloadKind sv s (Inbound msg r) = None"
  | (Handled) m p where
      "delivers sv s msg m p" "p \<noteq> JNull"
      "payloadKind sv s (Inbound msg r) = own_prop p ''t''"
      "handleResponse sv msg r s =
        (let s1 = s\<lparr>packetReceivedNo := packetReceivedNo s + 1\<rparr>; t = own_prop p ''t'' in
         if t = Some (JStr ''dev'') then handleDev sv m (Some p) r s1
         else if t = Some (JStr ''bindok'') \<and> truthy (dev_id (device s)) then handleBindok m (Some p) s1
         else if t = Some (JStr ''dat'') \<and> dev_bound (device s) = Some True then handleDat (Some p) s1
         else if t = Some (JStr ''res'') \<and> dev_bound (device s) = Some True then handleRes (Some p) s1
         else (None, emit (Log (LogUnknown t m (Some p))) s1))"
proof (cases "json_parse sv msg")
  case None
  then show ?thesis
    using Thrown[of SyntaxError] by (simp add: handleResponse_def payloadKind_def payloadOf_def)
next
  case (Some m)
  show ?thesis
  proof (cases "extractPack sv m s")
    case (Inl e)
    with Some show ?thesis
      using Thrown[of e] by (simp add: handleResponse_def payloadKind_def payloadOf_def)
  next
    case (Inr pack)
    show ?thesis
    proof (cases pack)
      case None
      with Some Inr show ?thesis
        using Thrown[of TypeError] by (simp add: handleResponse_def payloadKind_def payloadOf_def)
    next
      case (Some p)
      show ?thesis
      proof (cases "p = JNull")
        case True
        with \<open>json_parse sv msg = Some m\<close> Inr Some show ?thesis
          using Thrown[of TypeError] by (simp add: handleResponse_def payloadKind_def payloadOf_def)
      next
        case False
        with \<open>json_parse sv msg = Some m\<close> Inr Some show ?thesis
          using Handled[of m p]
          by (simp add: handleResponse_def payloadKind_def payloadOf_def delivers_def prop_get_own Let_def)
      qed
    qed
  qed
qed


text \<open>What one call of the handler does to the session, case by case.\<close>

lemma handleResponse_effect:
  assumes h: "handleResponse sv msg r s = (x, s')"
  obtains
    (Thrown) e where
      "payloadKind sv s (Inbound msg r) = None" "x = Some e"
      "s' = s\<lparr>packetReceivedNo := packetReceivedNo s + 1\<rparr>"
  | (DevThrown) e where
      "payloadKind sv s (Inbound msg r) = Some (JStr ''dev'')" "x = Some e"
      "s' = s\<lparr>packetReceivedNo := packetReceivedNo s + 1\<rparr>"
  | (Dev) m p b where
      "payloadKind sv s (Inbound msg r) = Some (JStr ''dev'')" "delivers sv s msg m p" "x = None"
      "if encryptionVersion s = 1 then verIsV2 (own_prop p ''ver'') = Inr b else \<not> b"
      "s' = sendBindRequest sv
              (setDevice (if b then own_prop p ''cid'' else own_prop m ''cid'') (own_prop p ''name'')
                 (rinfo_address r) (rinfo_port r)
                 (if b then s\<lparr>packetReceivedNo := packetReceivedNo s + 1, encryptionVersion := 2\<rparr>
                  else s\<lparr>packetReceivedNo := packetReceivedNo s + 1\<rparr>))"
  | (Bindok) m p where
      "payloadKind sv s (Inbound msg r) = Some (JStr ''bindok'')" "truthy (dev_id (device s))"
      "delivers sv s msg m p" "x = None"
      "s' = s\<lparr>packetReceivedNo := packetReceivedNo s + 1,
              device := (device s)\<lparr>dev_bound := Some True, dev_key := own_prop p ''key''\<rparr>,
              emitted := emitted s @
                [Log (LogBound (dev_id (device s))), SetInterval 3000,
                 OnConnected ((device s)\<lparr>dev_bound := Some True, dev_key := own_prop p ''key''\<rparr>)]\<rparr>"
  | (Props) q g cb where
      "payloadKind sv s (Inbound msg r) = Some (JStr ''dat'') \<or>
       payloadKind sv s (Inbound msg r) = Some (JStr ''res'')"
      "dev_bound (device s) = Some True" "cb = OnStatus \<or> cb = OnUpdate"
      "s' = s\<lparr>packetReceivedNo := packetReceivedNo s + 1,
              device := (device s)\<lparr>dev_props := q, dev_props_proto := g\<rparr>,
              emitted := emitted s @ (if x = None then [cb ((device s)\<lparr>dev_props := q, dev_props_proto := g\<rparr>)] else [])\<rparr>"
      "dev_props (device s) = None \<longrightarrow> q = None"
      "\<forall>ps. dev_props (device s) = Some ps \<longrightarrow> (\<exists>ps'. q = Some ps' \<and> dom ps \<subseteq> dom ps')"
  | (Unknown) m p where
      "payloadKind sv s (Inbound msg r) \<noteq> Some (JStr ''dev'')"
      "\<not> (payloadKind sv s (Inbound msg r) = Some (JStr ''bindok'') \<and> truthy (dev_id (device s)))"
      "x = None"
      "s' = s\<lparr>packetReceivedNo := packetReceivedNo s + 1,
              emitted := emitted s @ [Log (LogUnknown (own_prop p ''t'') m (Some p))]\<rparr>"
proof (cases rule: handleResponse_cases[of sv msg r s])
  case (Thrown e)
  with h show ?thesis using that(1)[of e] by simp
next
  case (Handled m p)
  let ?s1 = "s\<lparr>packetReceivedNo := packetReceivedNo s + 1\<rparr>"
  let ?t = "own_prop p ''t''"
  consider (dev) "?t = Some (JStr ''dev'')"
    | (bindok) "?t = Some (JStr ''bindok'')" "truthy (dev_id (device s))"
    | (dat) "?t = Some (JStr ''dat'')" "dev_bound (device s) = Some True"
    | (res) "?t = Some (JStr ''res'')" "dev_bound (device s) = Some True"
    | (other) "?t \<noteq> Some (JStr ''dev'')" "\<not> (?t = Some (JStr ''bindok'') \<and> truthy (dev_id (device s)))"
        "\<not> (?t = Some (JStr ''dat'') \<and> dev_bound (device s) = Some True)"
        "\<not> (?t = Some (JStr ''res'') \<and> dev_bound (device s) = Some True)"
    by blast
  then show ?thesis
  proof cases
    case dev
    have d: "handleDev sv m (Some p) r ?s1 = (x, s')"
      using h Handled(4) dev by (simp add: Let_def)
    show ?thesis
    proof (cases "if encryptionVersion s = 1 then verIsV2 (own_prop p ''ver'') else Inr False")
      case (Inl e)
      with d have "x = Some e" "s' = ?s1"
        by (simp_all add: handleDev_delivered[OF Handled(1) dev])
      with Handled(3) dev show ?thesis using that(2)[of e] by simp
    next
      case (Inr b)
      with d have "x = None" and
        "s' = sendBindRequest sv
              (setDevice (if b then own_prop p ''cid'' else own_prop m ''cid'') (own_prop p ''name'')
                 (rinfo_address r) (rinfo_port r)
                 (if b then s\<lparr>packetReceivedNo := packetReceivedNo s + 1, encryptionVersion := 2\<rparr>
                  else s\<lparr>packetReceivedNo := packetReceivedNo s + 1\<rparr>))"
        by (auto simp: handleDev_delivered[OF Handled(1) dev])
      moreover have "if encryptionVersion s = 1 then verIsV2 (own_prop p ''ver'') = Inr b else \<not> b"
        using Inr by (simp split: if_splits)
      ultimately show ?thesis
        using that(3)[of m p b] Handled(1,3) dev by simp
    qed
  next
    case bindok
    have "handleBindok m (Some p) ?s1 = (x, s')"
      using h Handled(4) bindok by (simp add: Let_def)
    then have "x = None" and
      "s' = s\<lparr>packetReceivedNo := packetReceivedNo s + 1,
              device := (device s)\<lparr>dev_bound := Some True, dev_key := own_prop p ''key''\<rparr>,
              emitted := emitted s @
                [Log (LogBound (dev_id (device s))), SetInterval 3000,
                 OnConnected ((device s)\<lparr>dev_bound := Some True, dev_key := own_prop p ''key''\<rparr>)]\<rparr>"
      by (auto simp: handleBindok_delivered[OF Handled(1) bindok(1)] emit_def confirmBinding_def)
    then show ?thesis
      using that(4)[of m p] Handled(1,3) bindok by simp
  next
    case dat
    have d: "handleDat (Some p) ?s1 = (x, s')"
      using h Handled(4) dat by (simp add: Let_def)
    obtain q g where
      "s' = ?s1\<lparr>device := (device ?s1)\<lparr>dev_props := q, dev_props_proto := g\<rparr>,
            emitted := emitted ?s1 @ (if x = None then [OnStatus ((device ?s1)\<lparr>dev_props := q, dev_props_proto := g\<rparr>)] else [])\<rparr>"
      "dev_props (device ?s1) = None \<longrightarrow> q = None"
      "\<forall>ps. dev_props (device ?s1) = Some ps \<longrightarrow> (\<exists>ps'. q = Some ps' \<and> dom ps \<subseteq> dom ps')"
      by (rule handleDat_frame[OF d])
    then show ?thesis
      using that(5)[where cb=OnStatus and q=q and g=g] Handled(3) dat by simp
  next
    case res
    have d: "handleRes (Some p) ?s1 = (x, s')"
      using h Handled(4) res by (simp add: Let_def)
    obtain q g where
      "s' = ?s1\<lparr>device := (device ?s1)\<lparr>dev_props := q, dev_props_proto := g\<rparr>,
            emitted := emitted ?s1 @ (if x = None then [OnUpdate ((device ?s1)\<lparr>dev_props := q, dev_props_proto := g\<rparr>)] else [])\<rparr>"
      "dev_props (device ?s1) = None \<longrightarrow> q = None"
      "\<forall>ps. dev_props (device ?s1) = Some ps \<longrightarrow> (\<exists>ps'. q = Some ps' \<and> dom ps \<subseteq> dom ps')"
      by (rule handleRes_frame[OF d])
    then show ?thesis
      using that(5)[where cb=OnUpdate and q=q and g=g] Handled(3) res by simp
  next
    case other
    with h Handled(4) have "x = None" "s' = emit (Log (LogUnknown ?t m (Some p))) ?s1"
      by (simp_all add: Let_def)
    then show ?thesis
      using that(6)[of p m] Handled(3) other by (simp add: emit_def)
  qed
qed

subsection \<open>Reachable sessions\<close>

lemma handleResponse_inv:
  assumes "sessionInv s"
  shows "sessionInv (snd (handleResponse sv msg r s))"
proof -
  obtain x s' where h: "handleResponse sv msg r s = (x, s')"
    by (cases "handleResponse sv msg r s")
  from h have "sessionInv s'"
  proof (cases rule: handleResponse_effect)
    case (Thrown e)
    with assms show ?thesis by (simp add: sessionInv_def)
  next
    case (DevThrown e)
    with assms show ?thesis by (simp add: sessionInv_def)
  next
    case (Dev m p b)
    with assms show ?thesis by (simp add: sessionInv_def)
  next
    case (Bindok m p)
    with assms show ?thesis by (auto simp: sessionInv_def)
  next
    case (Props q g cb)
    with assms show ?thesis by (cases "dev_props (device s)") (auto simp: sessionInv_def)
  next
    case (Unknown m p)
    with assms show ?thesis by (simp add: sessionInv_def)
  qed
  with h show ?thesis by simp
qed

lemma step_inv: "sessionInv s \<Longrightarrow> sessionInv (step sv ev s)"
  by (cases ev)
     (simp_all add: handleResponse_inv,
      simp_all add: sessionInv_def sendCommand_def requestDeviceStatus_def connectToDevice_def)

lemma run_inv: "sessionInv s \<Longrightarrow> sessionInv (run sv evs s)"
  by (induction evs arbitrary: s) (simp_all add: step_inv)

lemma reachable_inv: "sessionInv (run sv evs (Device host port))"
  by (rule run_inv) (simp add: sessionInv_def Device_def)

lemma run_append: "run sv (evs @ evs') s = run sv evs' (run sv evs s)"
  by (induction evs arbitrary: s) simp_all

subsection \<open>Bind confirmation\<close>

lemma step_keeps_id:
  assumes "payloadKind sv s ev \<noteq> Some (JStr ''dev'')"
  shows "dev_id (device (step sv ev s)) = dev_id (device s)"
proof (cases ev)
  case (Inbound msg r)
  obtain x s' where h: "handleResponse sv msg r s = (x, s')"
    by (cases "handleResponse sv msg r s")
  from h have "dev_id (device s') = dev_id (device s)"
  proof (cases rule: handleResponse_effect)
    case (Dev m p b)
    with assms Inbound show ?thesis by simp
  qed simp_all
  with h Inbound show ?thesis by simp
qed (simp_all add: sendCommand_def requestDeviceStatus_def connectToDevice_def)

lemma run_keeps_id:
  "noDevReply sv evs s \<Longrightarrow> dev_id (device (run sv evs s)) = dev_id (device s)"
  by (induction evs arbitrary: s) (simp_all add: step_keeps_id)

text \<open>
  C3. In a reachable session, a \<^verbatim>\<open>bindok\<close> payload changes the session beyond the
  receive counter only when the device id is set (truthy), which in turn requires that
  an earlier event of the run delivered a \<^verbatim>\<open>dev\<close> payload: then the key of the
  payload is stored, \<open>bound\<close> becomes true, the status timer of 3000 ms is started and
  the connected-callback is called. When no device id is set, the device is left as it
  was and the payload is only logged as unknown.
\<close>

theorem C3_bindok_needs_device_id:
  assumes "s = run sv evs (Device host port)"
    and "delivers sv s msg m p"
    and "own_prop p ''t'' = Some (JStr ''bindok'')"
    and "handleResponse sv msg r s = (x, s')"
  shows "x = None \<and>
     (\<not> truthy (dev_id (device s)) \<longrightarrow>
        device s' = device s \<and>
        emitted s' = emitted s @ [Log (LogUnknown (Some (JStr ''bindok'')) m (Some p))]) \<and>
     (truthy (dev_id (device s)) \<longrightarrow>
        \<not> noDevReply sv evs (Device host port) \<and>
        dev_key (device s') = own_prop p ''key'' \<and> dev_bound (device s') = Some True \<and>
        emitted s' = emitted s @
          [Log (LogBound (dev_id (device s))), SetInterval 3000, OnConnected (device s')])"
proof -
  have "truthy (dev_id (device s)) \<longrightarrow> \<not> noDevReply sv evs (Device host port)"
  proof (intro impI notI)
    assume t: "truthy (dev_id (device s))" and "noDevReply sv evs (Device host port)"
    from run_keeps_id[OF this(2)] have "dev_id (device s) = None"
      by (simp add: assms(1) Device_def)
    with t show False by simp
  qed
  with assms(4) show ?thesis
    by (auto simp: handleResponse_delivered[OF assms(2,3)] handleBindok_delivered[OF assms(2,3)]
        Let_def emit_def confirmBinding_def split: if_splits)
qed

theorem C3_bindok_needs_device_id_witness:
  "delivers sampleServices (run sampleServices [recv devText] fresh) bindokText bindokEnvelope bindokPayload \<and>
   own_prop bindokPayload ''t'' = Some (JStr ''bindok'') \<and>
   truthy (dev_id (device (run sampleServices [recv devText] fresh))) \<and>
   \<not> noDevReply sampleServices [recv devText] fresh \<and>
   dev_key (device (run sampleServices [recv devText, recv bindokText] fresh)) = Some (JStr ''K123'') \<and>
   dev_bound (device (run sampleServices [recv devText, recv bindokText] fresh)) = Some True \<and>
   delivers sampleServices fresh bindokText bindokEnvelope bindokPayload \<and>
   \<not> truthy (dev_id (device fresh)) \<and>
   device (run sampleServices [recv bindokText] fresh) = device fresh"
proof -
  let ?s = "run sampleServices [recv devText] fresh"
  let ?r = "handleResponse sampleServices bindokText sampleRinfo ?s"
  let ?q = "handleResponse sampleServices bindokText sampleRinfo fresh"
  have s1: "?s = run sampleServices [recv devText] (Device None None)"
    and s2: "fresh = run sampleServices [] (Device None None)"
    by (simp_all add: fresh_def)
  have d1: "delivers sampleServices ?s bindokText bindokEnvelope bindokPayload"
    by (simp add: sample_defs model_defs)
  have d2: "delivers sampleServices fresh bindokText bindokEnvelope bindokPayload"
    by (simp add: sample_defs model_defs)
  have k: "own_prop bindokPayload ''t'' = Some (JStr ''bindok'')"
    by (simp add: bindokPayload_def)
  have t1: "truthy (dev_id (device ?s))"
    by (simp add: sample_defs model_defs)
  have t2: "\<not> truthy (dev_id (device fresh))"
    by (simp add: fresh_def Device_def)
  have r1: "?r = (fst ?r, snd ?r)" and r2: "?q = (fst ?q, snd ?q)"
    by simp_all
  have e1: "run sampleServices [recv devText, recv bindokText] fresh = snd ?r"
    and e2: "run sampleServices [recv bindokText] fresh = snd ?q"
    by (simp_all add: recv_def)
  from C3_bindok_needs_device_id[OF s1 d1 k r1] C3_bindok_needs_device_id[OF s2 d2 k r2]
    d1 d2 k t1 t2 e1 e2
  show ?thesis by (simp add: bindokPayload_def fresh_def)
qed

text \<open>
  C10. A \<^verbatim>\<open>bindok\<close> payload processed while the device id is set changes only the
  fields \<open>bound\<close> and \<open>key\<close> of the device: id, name, address, port and properties
  stay as they were, whatever id the envelope of the \<^verbatim>\<open>bindok\<close> carries.
\<close>

theorem C10_bindok_frame:
  assumes "delivers sv s msg m p"
    and "own_prop p ''t'' = Some (JStr ''bindok'')"
    and "truthy (dev_id (device s))"
    and "handleResponse sv msg r s = (x, s')"
  shows "device s' = (device s)\<lparr>dev_bound := Some True, dev_key := own_prop p ''key''\<rparr> \<and>
     dev_id (device s') = dev_id (device s) \<and> dev_name (device s') = dev_name (device s) \<and>
     dev_address (device s') = dev_address (device s) \<and> dev_port (device s') = dev_port (device s) \<and>
     dev_props (device s') = dev_props (device s)"
  using assms(3,4)
  by (auto simp: handleResponse_delivered[OF assms(1,2)] handleBindok_delivered[OF assms(1,2)]
      Let_def emit_def confirmBinding_def)

theorem C10_bindok_frame_witness:
  "delivers sampleServices (run sampleServices [recv devText] fresh) bindokText bindokEnvelope bindokPayload \<and>
   own_prop bindokPayload ''t'' = Some (JStr ''bindok'') \<and>
   truthy (dev_id (device (run sampleServices [recv devText] fresh))) \<and>
   own_prop bindokEnvelope ''cid'' = Some (JStr ''X7'') \<and>
   dev_id (device (run sampleServices [recv devText] fresh)) = Some (JStr ''A1B2'') \<and>
   dev_id (device (run sampleServices [recv devText, recv bindokText] fresh)) = Some (JStr ''A1B2'') \<and>
   dev_name (device (run sampleServices [recv devText, recv bindokText] fresh)) = Some (JStr ''AC1'')"
proof -
  let ?s = "run sampleServices [recv devText] fresh"
  let ?r = "handleResponse sampleServices bindokText sampleRinfo ?s"
  have d: "delivers sampleServices ?s bindokText bindokEnvelope bindokPayload"
    by (simp add: sample_defs model_defs)
  have k: "own_prop bindokPayload ''t'' = Some (JStr ''bindok'')"
    by (simp add: bindokPayload_def)
  have t: "truthy (dev_id (device ?s))"
    by (simp add: sample_defs model_defs)
  have c: "own_prop bindokEnvelope ''cid'' = Some (JStr ''X7'')"
    by (simp add: bindokEnvelope_def)
  have i: "dev_id (device ?s) = Some (JStr ''A1B2'')"
    and n: "dev_name (device ?s) = Some (JStr ''AC1'')"
    by (simp_all add: sample_defs model_defs)
  have r: "?r = (fst ?r, snd ?r)"
    by simp
  have e: "run sampleServices [recv devText, recv bindokText] fresh = snd ?r"
    by (simp add: recv_def)
  from C10_bindok_frame[OF d k t r] d k t c i n e
  show ?thesis by simp
qed

subsection \<open>Datagrams that cannot be decoded\<close>

text \<open>
  C8, as the code has it. When \<^verbatim>\<open>JSON.parse\<close> throws, or when extracting the payload
  throws (the decrypt operation throws, or the envelope is \<^verbatim>\<open>null\<close>), the handler is
  left by that exception: nothing catches or logs it inside the session. Until then
  only the receive counter was incremented, so the device, the version and the tag are
  unchanged and nothing was sent, logged, scheduled or called back.
\<close>

theorem C8_undecodable_datagram:
  assumes "json_parse sv msg = None \<or> (json_parse sv msg = Some m \<and> extractPack sv m s = Inl e)"
  shows "handleResponse sv msg r s =
           (Some (if json_parse sv msg = None then SyntaxError else e),
            s\<lparr>packetReceivedNo := packetReceivedNo s + 1\<rparr>)"
  using assms by (auto simp: handleResponse_def Let_def)

theorem C8_undecodable_datagram_witness:
  "json_parse sampleServices sealedText = Some sealedEnvelope \<and>
   extractPack sampleServices sealedEnvelope fresh = Inl ProviderError \<and>
   handleResponse sampleServices sealedText sampleRinfo fresh =
     (Some ProviderError, fresh\<lparr>packetReceivedNo := 1\<rparr>)"
proof -
  have h: "json_parse sampleServices sealedText = Some sealedEnvelope \<and>
      extractPack sampleServices sealedEnvelope fresh = Inl ProviderError"
    by (simp add: sample_defs model_defs)
  have "json_parse sampleServices sealedText = None \<or>
      (json_parse sampleServices sealedText = Some sealedEnvelope \<and>
       extractPack sampleServices sealedEnvelope fresh = Inl ProviderError)"
    using h by simp
  from C8_undecodable_datagram[OF this, of sampleRinfo] h show ?thesis
    by (simp add: fresh_def Device_def)
qed

text \<open>
  The claim C8 as the specification words it (the failure is logged and no error is
  raised) does not hold: on a malformed datagram the handler ends with the SyntaxError
  and has written no log line.
\<close>

theorem C8_counterexample:
  "fst (handleResponse sampleServices malformedText sampleRinfo fresh) = Some SyntaxError \<and>
   emitted (snd (handleResponse sampleServices malformedText sampleRinfo fresh)) = []"
  by (simp add: sample_defs model_defs)

subsection \<open>Status reports and command responses\<close>

lemma map_Inr_length: "map f cs = map Inr ks \<Longrightarrow> length cs = length ks"
  by (rule map_eq_imp_length_eq)

lemma handleDat_array:
  assumes "own_prop p ''cols'' = Some (JArr cs)" and "own_prop p ''dat'' = Some (JArr xs)"
    and "map to_string cs = map Inr ks" and "dev_props (device s) = Some ps"
    and "''__proto__'' \<notin> set ks"
  shows "handleDat (Some p) s =
     (None, s\<lparr>device := (device s)\<lparr>dev_props := Some (ps(ks [\<mapsto>] map (valueAt xs) [0..<length ks]))\<rparr>,
              emitted := emitted s @
                [OnStatus ((device s)\<lparr>dev_props := Some (ps(ks [\<mapsto>] map (valueAt xs) [0..<length ks]))\<rparr>)]\<rparr>)"
  using forEachAssign_array[OF assms(4,3,5), of xs 0] map_Inr_length[OF assms(3)]
  by (simp add: handleDat_def payload_prop[OF assms(1)] assms(1,2) emit_def)

lemma handleRes_array:
  assumes "own_prop p ''opt'' = Some (JArr cs)"
    and "(if own_prop p ''p'' \<noteq> None then own_prop p ''p'' else own_prop p ''val'') = Some (JArr xs)"
    and "map to_string cs = map Inr ks" and "dev_props (device s) = Some ps"
    and "''__proto__'' \<notin> set ks"
  shows "handleRes (Some p) s =
     (None, s\<lparr>device := (device s)\<lparr>dev_props := Some (ps(ks [\<mapsto>] map (valueAt xs) [0..<length ks]))\<rparr>,
              emitted := emitted s @
                [OnUpdate ((device s)\<lparr>dev_props := Some (ps(ks [\<mapsto>] map (valueAt xs) [0..<length ks]))\<rparr>)]\<rparr>)"
  using forEachAssign_array[OF assms(4,3,5), of xs 0] map_Inr_length[OF assms(3)] assms(2)
  by (auto simp: handleRes_def payload_prop[OF assms(1)] assms(1) emit_def split: if_splits)

lemma writes_pointwise:
  assumes "ps' = ps(ks [\<mapsto>] map (valueAt xs) [0..<length ks])"
  shows "(\<forall>j<length ks. (\<forall>j'. j < j' \<and> j' < length ks \<longrightarrow> ks ! j' \<noteq> ks ! j) \<longrightarrow>
            ps' (ks ! j) = Some (valueAt xs j)) \<and>
         (\<forall>k. k \<notin> set ks \<longrightarrow> ps' k = ps k)"
proof (intro conjI allI impI)
  fix j assume j: "j < length ks" "\<forall>j'. j < j' \<and> j' < length ks \<longrightarrow> ks ! j' \<noteq> ks ! j"
  have "(ps(ks [\<mapsto>] map (valueAt xs) [0..<length ks])) (ks ! j) =
        Some (map (valueAt xs) [0..<length ks] ! j)"
    by (rule map_upds_last[OF _ j]) simp
  with j(1) show "ps' (ks ! j) = Some (valueAt xs j)"
    by (simp add: assms)
next
  fix k assume "k \<notin> set ks"
  then show "ps' k = ps k" by (simp add: assms map_upds_apply_nontin)
qed


text \<open>
  C2. A \<^verbatim>\<open>dat\<close> or \<^verbatim>\<open>res\<close> payload (a list of codes with a list of values, the
  codes naming properties other than \<^verbatim>\<open>__proto__\<close>, whose assignment goes to the
  inherited accessor instead of writing an entry) is applied to the properties of a
  reachable session if and only if the device is bound.
  When bound, the handler ends normally, the properties are the old ones with the
  pairs of code and value written in order of position, so that the last value
  written for a code is the one that stays and the codes not named keep their entry,
  whatever an earlier payload had written; then the status callback (for \<^verbatim>\<open>dat\<close>)
  or the update callback (for \<^verbatim>\<open>res\<close>) is called. When not bound, the device is
  left unchanged and the payload is logged as unknown.
\<close>

theorem C2_dat_res_applied_iff_bound:
  assumes "s = run sv evs (Device host port)"
    and "delivers sv s msg m p"
    and "(own_prop p ''t'' = Some (JStr ''dat'') \<and> codes = own_prop p ''cols'' \<and>
          vals = own_prop p ''dat'' \<and> callback = OnStatus) \<or>
         (own_prop p ''t'' = Some (JStr ''res'') \<and> codes = own_prop p ''opt'' \<and>
          vals = (if own_prop p ''p'' \<noteq> None then own_prop p ''p'' else own_prop p ''val'') \<and>
          callback = OnUpdate)"
    and "codes = Some (JArr cs)" and "map to_string cs = map Inr ks" and "vals = Some (JArr xs)"
    and "handleResponse sv msg r s = (x, s')"
    and "''__proto__'' \<notin> set ks"
  shows "x = None \<and>
    (if dev_bound (device s) = Some True
     then \<exists>ps ps'. dev_props (device s) = Some ps \<and> dev_props (device s') = Some ps' \<and>
            ps' = ps(ks [\<mapsto>] map (valueAt xs) [0..<length ks]) \<and>
            (\<forall>j<length ks. (\<forall>j'. j < j' \<and> j' < length ks \<longrightarrow> ks ! j' \<noteq> ks ! j) \<longrightarrow>
               ps' (ks ! j) = Some (valueAt xs j)) \<and>
            (\<forall>k. k \<notin> set ks \<longrightarrow> ps' k = ps k) \<and>
            emitted s' = emitted s @ [callback (device s')]
     else device s' = device s \<and>
          emitted s' = emitted s @ [Log (LogUnknown (own_prop p ''t'') m (Some p))])"
proof (cases "dev_bound (device s) = Some True")
  case False
  with assms(3,7) show ?thesis
    by (auto simp: handleResponse_delivered[OF assms(2)] Let_def emit_def)
next
  case True
  have "sessionInv s"
    unfolding assms(1) by (rule reachable_inv)
  with True obtain ps where ps: "dev_props (device s) = Some ps"
    by (auto simp: sessionInv_def)
  let ?s1 = "s\<lparr>packetReceivedNo := packetReceivedNo s + 1\<rparr>"
  let ?ps' = "ps(ks [\<mapsto>] map (valueAt xs) [0..<length ks])"
  have ps1: "dev_props (device ?s1) = Some ps" using ps by simp
  from assms(3) have
    "x = None \<and> dev_props (device s') = Some ?ps' \<and> emitted s' = emitted s @ [callback (device s')]"
  proof (elim disjE conjE)
    assume a: "own_prop p ''t'' = Some (JStr ''dat'')" "codes = own_prop p ''cols''"
      "vals = own_prop p ''dat''" "callback = OnStatus"
    have "handleDat (Some p) ?s1 = (x, s')"
      using assms(7) True by (simp add: handleResponse_delivered[OF assms(2) a(1)] Let_def)
    then show ?thesis
      using handleDat_array[OF assms(4)[unfolded a(2)] assms(6)[unfolded a(3)] assms(5) ps1 assms(8)] a(4)
      by auto
  next
    assume a: "own_prop p ''t'' = Some (JStr ''res'')" "codes = own_prop p ''opt''"
      "vals = (if own_prop p ''p'' \<noteq> None then own_prop p ''p'' else own_prop p ''val'')"
      "callback = OnUpdate"
    have "handleRes (Some p) ?s1 = (x, s')"
      using assms(7) True by (simp add: handleResponse_delivered[OF assms(2) a(1)] Let_def)
    then show ?thesis
      using handleRes_array[OF assms(4)[unfolded a(2)] assms(6)[unfolded a(3)] assms(5) ps1 assms(8)] a(4)
      by auto
  qed
  with writes_pointwise[of ?ps' ps ks xs] ps True show ?thesis
    by auto
qed

theorem C2_dat_res_applied_iff_bound_witness:
  "dev_bound (device (run sampleServices [recv devText, recv bindokText, recv datText] fresh)) = Some True \<and>
   delivers sampleServices (run sampleServices [recv devText, recv bindokText, recv datText] fresh)
     dat2Text dat2Envelope dat2Payload \<and>
   own_prop dat2Payload ''t'' = Some (JStr ''dat'') \<and>
   own_prop dat2Payload ''cols'' = Some (JArr [JStr ''Pow'']) \<and>
   own_prop dat2Payload ''dat'' = Some (JArr [JNum 0]) \<and>
   property (run sampleServices [recv devText, recv bindokText, recv datText] fresh) ''Pow'' = Some (Some (JNum 1)) \<and>
   property (run sampleServices [recv devText, recv bindokText, recv datText] fresh) ''SetTem'' = Some (Some (JNum 24)) \<and>
   property (run sampleServices [recv devText, recv bindokText, recv datText, recv dat2Text] fresh) ''Pow'' = Some (Some (JNum 0)) \<and>
   property (run sampleServices [recv devText, recv bindokText, recv datText, recv dat2Text] fresh) ''SetTem'' = Some (Some (JNum 24)) \<and>
   dev_bound (device fresh) \<noteq> Some True \<and>
   delivers sampleServices fresh dat2Text dat2Envelope dat2Payload \<and>
   device (run sampleServices [recv dat2Text] fresh) = device fresh"
proof -
  let ?evs = "[recv devText, recv bindokText, recv datText]"
  let ?s = "run sampleServices ?evs fresh"
  let ?r = "handleResponse sampleServices dat2Text sampleRinfo ?s"
  let ?q = "handleResponse sampleServices dat2Text sampleRinfo fresh"
  have s: "?s = run sampleServices ?evs (Device None None)"
    and f: "fresh = run sampleServices [] (Device None None)"
    by (simp_all add: fresh_def)
  have b: "dev_bound (device ?s) = Some True"
    and d: "delivers sampleServices ?s dat2Text dat2Envelope dat2Payload"
    and p1: "property ?s ''Pow'' = Some (Some (JNum 1))"
    and p2: "property ?s ''SetTem'' = Some (Some (JNum 24))"
    by (simp_all add: sample_defs model_defs)
  have nb: "dev_bound (device fresh) \<noteq> Some True"
    and df: "delivers sampleServices fresh dat2Text dat2Envelope dat2Payload"
    by (simp_all add: sample_defs model_defs)
  have k: "own_prop dat2Payload ''t'' = Some (JStr ''dat'')"
    and c: "own_prop dat2Payload ''cols'' = Some (JArr [JStr ''Pow''])"
    and v: "own_prop dat2Payload ''dat'' = Some (JArr [JNum 0])"
    by (simp_all add: dat2Payload_def)
  have kind: "(own_prop dat2Payload ''t'' = Some (JStr ''dat'') \<and>
        Some (JArr [JStr ''Pow'']) = own_prop dat2Payload ''cols'' \<and>
        Some (JArr [JNum 0]) = own_prop dat2Payload ''dat'' \<and> OnStatus = OnStatus) \<or>
       (own_prop dat2Payload ''t'' = Some (JStr ''res'') \<and>
        Some (JArr [JStr ''Pow'']) = own_prop dat2Payload ''opt'' \<and>
        Some (JArr [JNum 0]) =
          (if own_prop dat2Payload ''p'' \<noteq> None then own_prop dat2Payload ''p''
           else own_prop dat2Payload ''val'') \<and>
        OnStatus = OnUpdate)"
    using k c v by simp
  have ks: "map to_string [JStr ''Pow''] = map Inr [''Pow'']"
    by simp
  have r1: "?r = (fst ?r, snd ?r)" and r2: "?q = (fst ?q, snd ?q)"
    by simp_all
  have e1: "run sampleServices (?evs @ [recv dat2Text]) fresh = snd ?r"
    unfolding run_append by (simp add: recv_def)
  have e2: "run sampleServices [recv dat2Text] fresh = snd ?q"
    by (simp add: recv_def)
  have np: "''__proto__'' \<notin> set [''Pow'']"
    by simp
  note t1 = C2_dat_res_applied_iff_bound[OF s d kind refl ks refl r1 np]
  note t2 = C2_dat_res_applied_iff_bound[OF f df kind refl ks refl r2 np]
  from t1 b p1 p2 have
    "property (snd ?r) ''Pow'' = Some (Some (JNum 0)) \<and>
     property (snd ?r) ''SetTem'' = Some (Some (JNum 24))"
    by (auto simp: property_def valueAt_def)
  moreover from t2 nb have "device (snd ?q) = device fresh"
    by simp
  ultimately show ?thesis
    using b d k c v p1 p2 nb df e1 e2 by simp
qed

text \<open>
  C9. For a \<^verbatim>\<open>res\<close> payload processed while bound, the value written for the option
  at position \<open>j\<close> is element \<open>j\<close> of the list \<^verbatim>\<open>p\<close> when the payload has a
  \<^verbatim>\<open>p\<close>, and element \<open>j\<close> of the list \<^verbatim>\<open>val\<close> when it has none. The options
  name properties other than \<^verbatim>\<open>__proto__\<close>, the one name whose assignment writes no
  entry.
\<close>

theorem C9_res_value_source:
  assumes "s = run sv evs (Device host port)"
    and "delivers sv s msg m p"
    and "own_prop p ''t'' = Some (JStr ''res'')"
    and "dev_bound (device s) = Some True"
    and "own_prop p ''opt'' = Some (JArr cs)" and "map to_string cs = map Inr ks"
    and "own_prop p ''p'' = Some (JArr xs) \<or>
         (own_prop p ''p'' = None \<and> own_prop p ''val'' = Some (JArr xs))"
    and "handleResponse sv msg r s = (x, s')"
    and "''__proto__'' \<notin> set ks"
  shows "x = None \<and>
     (\<exists>ps'. dev_props (device s') = Some ps' \<and>
        (\<forall>j<length ks. (\<forall>j'. j < j' \<and> j' < length ks \<longrightarrow> ks ! j' \<noteq> ks ! j) \<longrightarrow>
           ps' (ks ! j) = Some (valueAt xs j))) \<and>
     emitted s' = emitted s @ [OnUpdate (device s')]"
proof -
  have "sessionInv s"
    unfolding assms(1) by (rule reachable_inv)
  with assms(4) obtain ps where ps: "dev_props (device s) = Some ps"
    by (auto simp: sessionInv_def)
  let ?s1 = "s\<lparr>packetReceivedNo := packetReceivedNo s + 1\<rparr>"
  let ?ps' = "ps(ks [\<mapsto>] map (valueAt xs) [0..<length ks])"
  have ps1: "dev_props (device ?s1) = Some ps" using ps by simp
  have src: "(if own_prop p ''p'' \<noteq> None then own_prop p ''p'' else own_prop p ''val'') = Some (JArr xs)"
    using assms(7) by auto
  have "handleRes (Some p) ?s1 = (x, s')"
    using assms(4,8) by (simp add: handleResponse_delivered[OF assms(2,3)] Let_def)
  then have "x = None \<and> dev_props (device s') = Some ?ps' \<and> emitted s' = emitted s @ [OnUpdate (device s')]"
    using handleRes_array[OF assms(5) src assms(6) ps1 assms(9)] by auto
  with writes_pointwise[of ?ps' ps ks xs] show ?thesis
    by auto
qed

theorem C9_res_value_source_witness:
  "dev_bound (device (run sampleServices [recv devText, recv bindokText] fresh)) = Some True \<and>
   delivers sampleServices (run sampleServices [recv devText, recv bindokText] fresh)
     resText resEnvelope resPayload \<and>
   own_prop resPayload ''t'' = Some (JStr ''res'') \<and>
   own_prop resPayload ''opt'' = Some (JArr [JStr ''Pow'']) \<and>
   own_prop resPayload ''p'' = None \<and>
   own_prop resPayload ''val'' = Some (JArr [JNum 0]) \<and>
   property (run sampleServices [recv devText, recv bindokText, recv resText] fresh) ''Pow'' = Some (Some (JNum 0)) \<and>
   delivers sampleServices (run sampleServices [recv devText, recv bindokText] fresh)
     res2Text res2Envelope res2Payload \<and>
   own_prop res2Payload ''t'' = Some (JStr ''res'') \<and>
   own_prop res2Payload ''opt'' = Some (JArr [JStr ''SetTem'']) \<and>
   own_prop res2Payload ''p'' = Some (JArr [JNum 25]) \<and>
   own_prop res2Payload ''val'' = Some (JArr [JNum 99]) \<and>
   property (run sampleServices [recv devText, recv bindokText, recv res2Text] fresh) ''SetTem'' = Some (Some (JNum 25))"
proof -
  let ?evs = "[recv devText, recv bindokText]"
  let ?s = "run sampleServices ?evs fresh"
  let ?r = "handleResponse sampleServices resText sampleRinfo ?s"
  let ?q = "handleResponse sampleServices res2Text sampleRinfo ?s"
  have s: "?s = run sampleServices ?evs (Device None None)"
    by (simp add: fresh_def)
  have b: "dev_bound (device ?s) = Some True"
    and d1: "delivers sampleServices ?s resText resEnvelope resPayload"
    and d2: "delivers sampleServices ?s res2Text res2Envelope res2Payload"
    by (simp_all add: sample_defs model_defs)
  have k1: "own_prop resPayload ''t'' = Some (JStr ''res'')"
    and o1: "own_prop resPayload ''opt'' = Some (JArr [JStr ''Pow''])"
    and p1: "own_prop resPayload ''p'' = None"
    and v1: "own_prop resPayload ''val'' = Some (JArr [JNum 0])"
    by (simp_all add: resPayload_def)
  have k2: "own_prop res2Payload ''t'' = Some (JStr ''res'')"
    and o2: "own_prop res2Payload ''opt'' = Some (JArr [JStr ''SetTem''])"
    and p2: "own_prop res2Payload ''p'' = Some (JArr [JNum 25])"
    and v2: "own_prop res2Payload ''val'' = Some (JArr [JNum 99])"
    by (simp_all add: res2Payload_def)
  have src1: "own_prop resPayload ''p'' = Some (JArr [JNum 0]) \<or>
      (own_prop resPayload ''p'' = None \<and> own_prop resPayload ''val'' = Some (JArr [JNum 0]))"
    using p1 v1 by simp
  have src2: "own_prop res2Payload ''p'' = Some (JArr [JNum 25]) \<or>
      (own_prop res2Payload ''p'' = None \<and> own_prop res2Payload ''val'' = Some (JArr [JNum 25]))"
    using p2 by simp
  have ks1: "map to_string [JStr ''Pow''] = map Inr [''Pow'']"
    and ks2: "map to_string [JStr ''SetTem''] = map Inr [''SetTem'']"
    by simp_all
  have r1: "?r = (fst ?r, snd ?r)" and r2: "?q = (fst ?q, snd ?q)"
    by simp_all
  have e1: "run sampleServices (?evs @ [recv resText]) fresh = snd ?r"
    and e2: "run sampleServices (?evs @ [recv res2Text]) fresh = snd ?q"
    unfolding run_append by (simp_all add: recv_def)
  have np1: "''__proto__'' \<notin> set [''Pow'']" and np2: "''__proto__'' \<notin> set [''SetTem'']"
    by simp_all
  from C9_res_value_source[OF s d1 k1 b o1 ks1 src1 r1 np1]
  have "property (snd ?r) ''Pow'' = Some (Some (JNum 0))"
    by (auto simp: property_def valueAt_def)
  moreover from C9_res_value_source[OF s d2 k2 b o2 ks2 src2 r2 np2]
  have "property (snd ?q) ''SetTem'' = Some (Some (JNum 25))"
    by (auto simp: property_def valueAt_def)
  ultimately show ?thesis
    using b d1 d2 k1 o1 p1 v1 k2 o2 p2 v2 e1 e2 by simp
qed

subsection \<open>Runs: the connected-callback\<close>

lemma payloadKind_not_inbound [simp]:
  "payloadKind sv s (Command cs vs) = None"
  "payloadKind sv s PollTick = None"
  "payloadKind sv s SocketBound = None"
  by (simp_all add: payloadKind_def payloadOf_def)

lemma step_connected:
  "connectedCalls (emitted (step sv ev s)) =
     connectedCalls (emitted s) +
     (if payloadKind sv s ev = Some (JStr ''bindok'') \<and> truthy (dev_id (device s)) then 1 else 0)"
proof (cases ev)
  case (Inbound msg r)
  obtain x s' where h: "handleResponse sv msg r s = (x, s')"
    by (cases "handleResponse sv msg r s")
  from h have "connectedCalls (emitted s') =
     connectedCalls (emitted s) +
     (if payloadKind sv s (Inbound msg r) = Some (JStr ''bindok'') \<and> truthy (dev_id (device s)) then 1 else 0)"
  proof (cases rule: handleResponse_effect)
    case (Props q g cb)
    then show ?thesis by auto
  qed simp_all
  with h Inbound show ?thesis by simp
qed (simp_all add: sendCommand_def requestDeviceStatus_def connectToDevice_def)

text \<open>
  C4, as the code has it. The connected-callback is called once for every event that
  delivers a \<^verbatim>\<open>bindok\<close> payload while the device id is set, and by nothing else:
  over a run, the number of its calls grows by the number of such events. The handler
  has no guard against a \<^verbatim>\<open>bindok\<close> that arrives when the device is already bound.
\<close>

theorem C4_connected_once_per_bindok:
  "connectedCalls (emitted (run sv evs s)) = connectedCalls (emitted s) + bindoksHonoured sv evs s"
proof (induction evs arbitrary: s)
  case Nil
  show ?case by simp
next
  case (Cons ev evs)
  have "connectedCalls (emitted (run sv (ev # evs) s)) =
        connectedCalls (emitted (step sv ev s)) + bindoksHonoured sv evs (step sv ev s)"
    using Cons.IH[of "step sv ev s"] by simp
  also have "\<dots> = connectedCalls (emitted s) + bindoksHonoured sv (ev # evs) s"
    by (simp add: step_connected)
  finally show ?case .
qed

text \<open>
  The claim C4 as the specification words it (exactly one call per session) does not
  hold: a second \<^verbatim>\<open>bindok\<close> after the handshake calls the callback a second time.
\<close>

theorem C4_counterexample:
  "connectedCalls (emitted (run sampleServices [recv devText, recv bindokText] fresh)) = 1 \<and>
   connectedCalls (emitted (run sampleServices [recv devText, recv bindokText, recv bindokText] fresh)) = 2"
  by (simp add: sample_defs model_defs)

theorem C4_connected_once_per_bindok_witness:
  "bindoksHonoured sampleServices [recv bindokText, recv devText, recv bindokText, recv datText, recv bindokText] fresh = 2 \<and>
   connectedCalls (emitted (run sampleServices
      [recv bindokText, recv devText, recv bindokText, recv datText, recv bindokText] fresh)) = 2"
proof -
  let ?evs = "[recv bindokText, recv devText, recv bindokText, recv datText, recv bindokText]"
  have b: "bindoksHonoured sampleServices ?evs fresh = 2"
    by (simp add: sample_defs model_defs)
  have e: "connectedCalls (emitted fresh) = 0"
    by (simp add: fresh_def Device_def)
  from C4_connected_once_per_bindok[of sampleServices ?evs fresh] b e show ?thesis
    by simp
qed

subsection \<open>Runs: bound and properties\<close>

lemma step_keeps_bound:
  assumes "dev_bound (device s) = Some True" and "dev_props (device s) = Some ps"
    and "payloadKind sv s ev \<noteq> Some (JStr ''dev'')"
  shows "dev_bound (device (step sv ev s)) = Some True \<and>
         (\<exists>ps'. dev_props (device (step sv ev s)) = Some ps' \<and> dom ps \<subseteq> dom ps')"
proof (cases ev)
  case (Inbound msg r)
  obtain x s' where h: "handleResponse sv msg r s = (x, s')"
    by (cases "handleResponse sv msg r s")
  from h have "dev_bound (device s') = Some True \<and>
         (\<exists>ps'. dev_props (device s') = Some ps' \<and> dom ps \<subseteq> dom ps')"
  proof (cases rule: handleResponse_effect)
    case (Dev m p b)
    with assms(3) Inbound show ?thesis by simp
  next
    case (DevThrown e)
    with assms(3) Inbound show ?thesis by simp
  next
    case (Props q g cb)
    with assms(1,2) show ?thesis by auto
  qed (use assms(1,2) in simp_all)
  with h Inbound show ?thesis by simp
qed (use assms(1,2) in \<open>simp_all add: sendCommand_def requestDeviceStatus_def connectToDevice_def\<close>)

lemma run_keeps_bound:
  assumes "dev_bound (device s) = Some True" and "dev_props (device s) = Some ps"
    and "noDevReply sv evs s"
  shows "dev_bound (device (run sv evs s)) = Some True \<and>
         (\<exists>ps'. dev_props (device (run sv evs s)) = Some ps' \<and> dom ps \<subseteq> dom ps')"
  using assms
proof (induction evs arbitrary: s ps)
  case Nil
  then show ?case by simp
next
  case (Cons ev evs)
  from Cons.prems(3) have k: "payloadKind sv s ev \<noteq> Some (JStr ''dev'')"
    and n: "noDevReply sv evs (step sv ev s)"
    by simp_all
  from step_keeps_bound[OF Cons.prems(1,2) k] obtain ps1 where
    b1: "dev_bound (device (step sv ev s)) = Some True"
    and p1: "dev_props (device (step sv ev s)) = Some ps1" "dom ps \<subseteq> dom ps1"
    by blast
  from Cons.IH[OF b1 p1(1) n] p1(2) show ?case
    by auto
qed

lemma dev_resets:
  assumes "delivers sv s msg m p" and "own_prop p ''t'' = Some (JStr ''dev'')"
    and "handleResponse sv msg r s = (None, s')"
  shows "dev_bound (device s') = Some False \<and> dev_props (device s') = Some Map.empty"
  using assms(3)
  by (auto simp: handleResponse_delivered[OF assms(1,2)] handleDev_delivered[OF assms(1,2)] Let_def
      split: sum.splits)

text \<open>
  C5, as the code has it. In a reachable session that is bound, every run of events
  none of which delivers a \<^verbatim>\<open>dev\<close> payload leaves \<open>bound\<close> true and removes no
  entry of the properties. A \<^verbatim>\<open>dev\<close> payload handled to its end registers the
  device anew through \<^verbatim>\<open>_setDevice\<close>: \<open>bound\<close> is false and the properties are
  empty afterwards.
\<close>

theorem C5_bound_until_dev_reply:
  assumes "s = run sv evs0 (Device host port)"
    and "dev_bound (device s) = Some True"
  shows "(noDevReply sv evs s \<longrightarrow>
            dev_bound (device (run sv evs s)) = Some True \<and>
            (\<forall>k. property s k \<noteq> None \<longrightarrow> property (run sv evs s) k \<noteq> None)) \<and>
         (delivers sv s msg m p \<and> own_prop p ''t'' = Some (JStr ''dev'') \<and>
          handleResponse sv msg r s = (None, s') \<longrightarrow>
            dev_bound (device s') = Some False \<and> dev_props (device s') = Some Map.empty)"
proof -
  have "sessionInv s"
    unfolding assms(1) by (rule reachable_inv)
  with assms(2) obtain ps where ps: "dev_props (device s) = Some ps"
    by (auto simp: sessionInv_def)
  have "noDevReply sv evs s \<longrightarrow>
            dev_bound (device (run sv evs s)) = Some True \<and>
            (\<forall>k. property s k \<noteq> None \<longrightarrow> property (run sv evs s) k \<noteq> None)"
  proof
    assume "noDevReply sv evs s"
    from run_keeps_bound[OF assms(2) ps this] ps
    show "dev_bound (device (run sv evs s)) = Some True \<and>
            (\<forall>k. property s k \<noteq> None \<longrightarrow> property (run sv evs s) k \<noteq> None)"
      by (auto simp: property_def)
  qed
  with dev_resets[of sv s msg m p r s'] show ?thesis
    by blast
qed

theorem C5_bound_until_dev_reply_witness:
  "dev_bound (device (run sampleServices [recv devText, recv bindokText, recv datText] fresh)) = Some True \<and>
   noDevReply sampleServices [recv dat2Text, recv bindokText, recv malformedText, recv res2Text]
     (run sampleServices [recv devText, recv bindokText, recv datText] fresh) \<and>
   property (run sampleServices [recv devText, recv bindokText, recv datText] fresh) ''Pow'' \<noteq> None \<and>
   dev_bound (device (run sampleServices
     [recv devText, recv bindokText, recv datText, recv dat2Text, recv bindokText, recv malformedText, recv res2Text]
     fresh)) = Some True \<and>
   property (run sampleServices
     [recv devText, recv bindokText, recv datText, recv dat2Text, recv bindokText, recv malformedText, recv res2Text]
     fresh) ''Pow'' \<noteq> None \<and>
   delivers sampleServices (run sampleServices [recv devText, recv bindokText, recv datText] fresh)
     devText devEnvelope devPayload \<and>
   own_prop devPayload ''t'' = Some (JStr ''dev'') \<and>
   dev_bound (device (run sampleServices [recv devText, recv bindokText, recv datText, recv devText] fresh)) = Some False"
proof -
  let ?pre = "[recv devText, recv bindokText, recv datText]"
  let ?evs = "[recv dat2Text, recv bindokText, recv malformedText, recv res2Text]"
  let ?s = "run sampleServices ?pre fresh"
  let ?r = "handleResponse sampleServices devText sampleRinfo ?s"
  have s: "?s = run sampleServices ?pre (Device None None)"
    by (simp add: fresh_def)
  have b: "dev_bound (device ?s) = Some True"
    by (simp add: sample_defs model_defs)
  have pw: "property ?s ''Pow'' \<noteq> None"
    by (simp add: sample_defs model_defs)
  have d: "delivers sampleServices ?s devText devEnvelope devPayload"
    by (simp add: sample_defs model_defs)
  have x: "fst ?r = None"
    by (simp add: sample_defs model_defs)
  have n: "noDevReply sampleServices ?evs ?s"
    by (simp add: sample_defs model_defs)
  have k: "own_prop devPayload ''t'' = Some (JStr ''dev'')"
    by (simp add: devPayload_def)
  have r: "?r = (None, snd ?r)"
    using x by (metis prod.collapse)
  have e1: "run sampleServices (?pre @ ?evs) fresh = run sampleServices ?evs ?s"
    by (rule run_append)
  have e2: "run sampleServices (?pre @ [recv devText]) fresh = snd ?r"
    unfolding run_append by (simp add: recv_def)
  from C5_bound_until_dev_reply[OF s b, of ?evs devText devEnvelope devPayload sampleRinfo "snd ?r"]
    b n pw d k r e1 e2
  show ?thesis by simp
qed

text \<open>
  The claim C5 as the specification words it (never unbound, never cleared, also by a
  later \<^verbatim>\<open>dev\<close> payload) does not hold: after handshake, binding and a status report,
  a second \<^verbatim>\<open>dev\<close> reply leaves the device unbound and without the property.
\<close>

theorem C5_counterexample:
  "dev_bound (device (run sampleServices [recv devText, recv bindokText, recv datText] fresh)) = Some True \<and>
   property (run sampleServices [recv devText, recv bindokText, recv datText] fresh) ''Pow'' = Some (Some (JNum 1)) \<and>
   dev_bound (device (run sampleServices [recv devText, recv bindokText, recv datText, recv devText] fresh)) = Some False \<and>
   property (run sampleServices [recv devText, recv bindokText, recv datText, recv devText] fresh) ''Pow'' = None"
  by (simp add: sample_defs model_defs)

subsection \<open>Runs: the encryption version\<close>

lemma step_version:
  assumes "encryptionVersion (step sv ev s) \<noteq> encryptionVersion s"
  shows "encryptionVersion s = 1 \<and> encryptionVersion (step sv ev s) = 2 \<and>
         (\<exists>p. payloadOf sv s ev = Some p \<and> own_prop p ''t'' = Some (JStr ''dev'') \<and>
              verIsV2 (own_prop p ''ver'') = Inr True)"
proof (cases ev)
  case (Inbound msg r)
  obtain x s' where h: "handleResponse sv msg r s = (x, s')"
    by (cases "handleResponse sv msg r s")
  with assms Inbound have ne: "encryptionVersion s' \<noteq> encryptionVersion s"
    by simp
  from h have "encryptionVersion s = 1 \<and> encryptionVersion s' = 2 \<and>
         (\<exists>p. payloadOf sv s (Inbound msg r) = Some p \<and> own_prop p ''t'' = Some (JStr ''dev'') \<and>
              verIsV2 (own_prop p ''ver'') = Inr True)"
  proof (cases rule: handleResponse_effect)
    case (Dev m p b)
    with ne have b: "b" by (auto split: if_splits)
    with Dev(4) have v: "encryptionVersion s = 1" "verIsV2 (own_prop p ''ver'') = Inr True"
      by (auto split: if_splits)
    have "payloadOf sv s (Inbound msg r) = Some p"
      using Dev(2) by (simp add: payloadOf_def delivers_def)
    moreover have "own_prop p ''t'' = Some (JStr ''dev'')"
      using Dev(1) calculation by (simp add: payloadKind_def)
    ultimately show ?thesis
      using Dev(5) b v by simp
  qed (use ne in simp_all)
  with h Inbound show ?thesis by simp
qed (use assms in \<open>simp_all add: sendCommand_def requestDeviceStatus_def connectToDevice_def\<close>)

lemma run_version_2:
  "encryptionVersion s = 2 \<Longrightarrow> encryptionVersion (run sv evs s) = 2"
proof (induction evs arbitrary: s)
  case Nil
  then show ?case by simp
next
  case (Cons ev evs)
  have "encryptionVersion (step sv ev s) = 2"
    using step_version[of sv ev s] Cons.prems by fastforce
  then show ?case
    using Cons.IH by simp
qed

text \<open>
  C6, as the code has it. A fresh session is on version 1. An event changes the
  version only from 1 to 2, and only by delivering a \<^verbatim>\<open>dev\<close> payload for which the
  test \<^verbatim>\<open>pack.ver && pack.ver.toString().startsWith('V2.')\<close> succeeds; this may be any
  \<^verbatim>\<open>dev\<close> reply received on version 1, not only the first one. Once the version is 2
  no run changes it, so it changes at most once, and every reachable session is on
  version 1 or 2.
\<close>

theorem C6_version_changes_once:
  "encryptionVersion (Device host port) = 1 \<and>
   (encryptionVersion (step sv ev s) \<noteq> encryptionVersion s \<longrightarrow>
      encryptionVersion s = 1 \<and> encryptionVersion (step sv ev s) = 2 \<and>
      (\<exists>p. payloadOf sv s ev = Some p \<and> own_prop p ''t'' = Some (JStr ''dev'') \<and>
           verIsV2 (own_prop p ''ver'') = Inr True)) \<and>
   (encryptionVersion s = 2 \<longrightarrow> encryptionVersion (run sv evs s) = 2) \<and>
   (encryptionVersion (run sv evs (Device host port)) = 1 \<or>
    encryptionVersion (run sv evs (Device host port)) = 2)"
  using step_version[of sv ev s] run_version_2[of s sv evs] reachable_inv[of sv evs host port]
  by (simp add: Device_def sessionInv_def)

text \<open>
  The claim C6 as the specification words it (a change only during the very first
  \<^verbatim>\<open>dev\<close> reply) does not hold: the first \<^verbatim>\<open>dev\<close> reply leaves the version at 1
  and the second one changes it to 2.
\<close>

theorem C6_counterexample:
  "encryptionVersion (run sampleServices [recv devText] fresh) = 1 \<and>
   encryptionVersion (run sampleServices [recv devText, recv devV2Text] fresh) = 2"
  by (simp add: sample_defs model_defs)

theorem C6_version_changes_once_witness:
  "encryptionVersion (run sampleServices [recv devText, recv bindokText] fresh) = 1 \<and>
   encryptionVersion (step sampleServices (recv devV2Text)
      (run sampleServices [recv devText, recv bindokText] fresh)) = 2 \<and>
   payloadOf sampleServices (run sampleServices [recv devText, recv bindokText] fresh) (recv devV2Text)
     = Some devV2Payload \<and>
   verIsV2 (own_prop devV2Payload ''ver'') = Inr True \<and>
   encryptionVersion (run sampleServices [recv devText, recv datText, recv bindokText]
      (step sampleServices (recv devV2Text)
         (run sampleServices [recv devText, recv bindokText] fresh))) = 2"
proof -
  let ?s = "run sampleServices [recv devText, recv bindokText] fresh"
  let ?t = "step sampleServices (recv devV2Text) ?s"
  let ?evs = "[recv devText, recv datText, recv bindokText]"
  have v1: "encryptionVersion ?s = 1"
    and v2: "encryptionVersion ?t = 2"
    and p: "payloadOf sampleServices ?s (recv devV2Text) = Some devV2Payload"
    by (simp_all add: sample_defs model_defs)
  from C6_version_changes_once[of None None sampleServices "recv devV2Text" ?s ?evs] v1 v2 p
  have a: "verIsV2 (own_prop devV2Payload ''ver'') = Inr True"
    by simp
  from C6_version_changes_once[of None None sampleServices "recv devV2Text" ?t ?evs] v2
  have "encryptionVersion (run sampleServices ?evs ?t) = 2"
    by simp
  with v1 v2 p a show ?thesis by simp
qed

subsection \<open>Outbound requests\<close>

lemma sendBindRequest_tag:
  assumes "encryptionVersion s = 1 \<or> encryptionVersion s = 2"
    and "snd (encrypt_v2 sv (BindMessage (dev_id (device s))) None) \<noteq> []"
  shows "\<exists>rq. emitted (sendBindRequest sv s) =
             emitted s @ [Send (PackDatagram rq) (dev_port (device s)) (dev_address (device s))] \<and>
           req_i rq = 1 \<and>
           (req_tag rq \<noteq> None \<longleftrightarrow> encryptionVersion s = 2) \<and>
           (encryptionVersion s = 2 \<longrightarrow>
              req_tag rq = Some (snd (encrypt_v2 sv (BindMessage (dev_id (device s))) None)))"
  using assms
  by (auto simp: sendBindRequest_def encryptMessage_def buildRequest_def emit_def split: prod.splits)

lemma sendRequest_tag:
  assumes "encryptionVersion s = 1 \<or> encryptionVersion s = 2"
    and "snd (encrypt_v2 sv ms (dev_key (device s))) \<noteq> []"
  shows "\<exists>rq p' a'. emitted (sendRequest sv ms a p s) = emitted s @ [Send (PackDatagram rq) p' a'] \<and>
           req_i rq = 0 \<and>
           (req_tag rq \<noteq> None \<longleftrightarrow> encryptionVersion s = 2) \<and>
           (encryptionVersion s = 2 \<longrightarrow>
              req_tag rq = Some (snd (encrypt_v2 sv ms (dev_key (device s)))))"
  using assms
  by (auto simp: sendRequest_def encryptMessage_def buildRequest_def emit_def Let_def split: prod.splits)

text \<open>The envelopes that one event makes the session send.\<close>

lemma step_sends:
  assumes inv: "encryptionVersion s = 1 \<or> encryptionVersion s = 2"
    and tags: "\<forall>ms k. snd (encrypt_v2 sv ms k) \<noteq> []"
  shows "\<exists>new. emitted (step sv ev s) = emitted s @ new \<and>
           (\<forall>rq p a. Send (PackDatagram rq) p a \<in> set new \<longrightarrow>
              (req_tag rq \<noteq> None \<longleftrightarrow> encryptionVersion (step sv ev s) = 2) \<and>
              (encryptionVersion (step sv ev s) = 2 \<longrightarrow>
                 (\<exists>ms k. req_tag rq = Some (snd (encrypt_v2 sv ms k)))))"
proof (cases ev)
  case (Inbound msg r)
  obtain x s' where h: "handleResponse sv msg r s = (x, s')"
    by (cases "handleResponse sv msg r s")
  from h have "\<exists>new. emitted s' = emitted s @ new \<and>
           (\<forall>rq p a. Send (PackDatagram rq) p a \<in> set new \<longrightarrow>
              (req_tag rq \<noteq> None \<longleftrightarrow> encryptionVersion s' = 2) \<and>
              (encryptionVersion s' = 2 \<longrightarrow>
                 (\<exists>ms k. req_tag rq = Some (snd (encrypt_v2 sv ms k)))))"
  proof (cases rule: handleResponse_effect)
    case (Dev m p b)
    let ?c = "if b then own_prop p ''cid'' else own_prop m ''cid''"
    let ?s0 = "if b then s\<lparr>packetReceivedNo := packetReceivedNo s + 1, encryptionVersion := 2\<rparr>
               else s\<lparr>packetReceivedNo := packetReceivedNo s + 1\<rparr>"
    let ?s2 = "setDevice ?c (own_prop p ''name'') (rinfo_address r) (rinfo_port r) ?s0"
    have v: "encryptionVersion ?s2 = 1 \<or> encryptionVersion ?s2 = 2"
      using inv by simp
    have g: "snd (encrypt_v2 sv (BindMessage (dev_id (device ?s2))) None) \<noteq> []"
      using tags by blast
    from sendBindRequest_tag[OF v g] obtain rq where
      rq: "emitted (sendBindRequest sv ?s2) =
             emitted ?s2 @ [Send (PackDatagram rq) (dev_port (device ?s2)) (dev_address (device ?s2))]"
        "req_tag rq \<noteq> None \<longleftrightarrow> encryptionVersion ?s2 = 2"
        "encryptionVersion ?s2 = 2 \<longrightarrow>
              req_tag rq = Some (snd (encrypt_v2 sv (BindMessage (dev_id (device ?s2))) None))"
      by blast
    have e: "emitted ?s2 = emitted s @ [Log (LogNewDevice ?c (Some (rinfo_address r)))]"
      by (simp add: setDevice_def emit_def)
    have ver: "encryptionVersion s' = encryptionVersion ?s2"
      using Dev(5) by simp
    have "emitted s' = emitted s @ [Log (LogNewDevice ?c (Some (rinfo_address r))),
             Send (PackDatagram rq) (dev_port (device ?s2)) (dev_address (device ?s2))]"
      using Dev(5) rq(1) e by simp
    moreover have "(req_tag rq \<noteq> None \<longleftrightarrow> encryptionVersion s' = 2) \<and>
              (encryptionVersion s' = 2 \<longrightarrow> (\<exists>ms k. req_tag rq = Some (snd (encrypt_v2 sv ms k))))"
      using rq(2,3) ver by auto
    ultimately show ?thesis by auto
  next
    case (Props q g cb)
    then show ?thesis by auto
  qed (auto)
  with h Inbound show ?thesis by simp
next
  case (Command cmds vals)
  have g: "snd (encrypt_v2 sv (CmdMessage cmds vals) (dev_key (device s))) \<noteq> []"
    using tags by blast
  from sendRequest_tag[OF inv g, of None None] obtain rq p' a' where
    rq: "emitted (sendRequest sv (CmdMessage cmds vals) None None s) = emitted s @ [Send (PackDatagram rq) p' a']"
      "req_tag rq \<noteq> None \<longleftrightarrow> encryptionVersion s = 2"
      "encryptionVersion s = 2 \<longrightarrow>
         req_tag rq = Some (snd (encrypt_v2 sv (CmdMessage cmds vals) (dev_key (device s))))"
    by blast
  have "encryptionVersion s = 2 \<longrightarrow> (\<exists>ms k. req_tag rq = Some (snd (encrypt_v2 sv ms k)))"
    using rq(3) by blast
  with rq(1,2) show ?thesis
    unfolding Command by (simp add: sendCommand_def)
next
  case PollTick
  let ?ms = "StatusMessage (cmd_codes sv) (dev_id (device s))"
  have g: "snd (encrypt_v2 sv ?ms (dev_key (device s))) \<noteq> []"
    using tags by blast
  from sendRequest_tag[OF inv g, of "dev_address (device s)" "dev_port (device s)"] obtain rq p' a' where
    rq: "emitted (sendRequest sv ?ms (dev_address (device s)) (dev_port (device s)) s) =
           emitted s @ [Send (PackDatagram rq) p' a']"
      "req_tag rq \<noteq> None \<longleftrightarrow> encryptionVersion s = 2"
      "encryptionVersion s = 2 \<longrightarrow> req_tag rq = Some (snd (encrypt_v2 sv ?ms (dev_key (device s))))"
    by blast
  have "encryptionVersion s = 2 \<longrightarrow> (\<exists>ms k. req_tag rq = Some (snd (encrypt_v2 sv ms k)))"
    using rq(3) by blast
  with rq(1,2) show ?thesis
    unfolding PollTick by (simp add: requestDeviceStatus_def)
next
  case SocketBound
  show ?thesis
    unfolding SocketBound by (simp add: connectToDevice_def emit_def)
qed


text \<open>
  C7. Let the session be on version 1 or 2, as every reachable session is, and let the
  encrypt operation of version 2 never return an empty tag. Then the request built by
  \<^verbatim>\<open>_sendBindRequest\<close>, the request built by \<^verbatim>\<open>_sendRequest\<close>, and every request
  that an event makes the session send, has a \<^verbatim>\<open>tag\<close> if and only if the version in
  force is 2, and the tag is then the one returned by that encrypt operation.
\<close>

theorem C7_tag_iff_version_2:
  assumes "encryptionVersion s = 1 \<or> encryptionVersion s = 2"
    and "\<forall>ms k. snd (encrypt_v2 sv ms k) \<noteq> []"
  shows "(\<exists>rq. emitted (sendBindRequest sv s) =
             emitted s @ [Send (PackDatagram rq) (dev_port (device s)) (dev_address (device s))] \<and>
           (req_tag rq \<noteq> None \<longleftrightarrow> encryptionVersion s = 2) \<and>
           (encryptionVersion s = 2 \<longrightarrow>
              req_tag rq = Some (snd (encrypt_v2 sv (BindMessage (dev_id (device s))) None)))) \<and>
         (\<exists>rq p' a'. emitted (sendRequest sv ms a p s) = emitted s @ [Send (PackDatagram rq) p' a'] \<and>
           (req_tag rq \<noteq> None \<longleftrightarrow> encryptionVersion s = 2) \<and>
           (encryptionVersion s = 2 \<longrightarrow>
              req_tag rq = Some (snd (encrypt_v2 sv ms (dev_key (device s)))))) \<and>
         (\<exists>new. emitted (step sv ev s) = emitted s @ new \<and>
           (\<forall>rq p a. Send (PackDatagram rq) p a \<in> set new \<longrightarrow>
              (req_tag rq \<noteq> None \<longleftrightarrow> encryptionVersion (step sv ev s) = 2) \<and>
              (encryptionVersion (step sv ev s) = 2 \<longrightarrow>
                 (\<exists>ms k. req_tag rq = Some (snd (encrypt_v2 sv ms k))))))"
proof (intro conjI)
  have g1: "snd (encrypt_v2 sv (BindMessage (dev_id (device s))) None) \<noteq> []"
    and g2: "snd (encrypt_v2 sv ms (dev_key (device s))) \<noteq> []"
    using assms(2) by blast+
  from sendBindRequest_tag[OF assms(1) g1]
  show "\<exists>rq. emitted (sendBindRequest sv s) =
             emitted s @ [Send (PackDatagram rq) (dev_port (device s)) (dev_address (device s))] \<and>
           (req_tag rq \<noteq> None \<longleftrightarrow> encryptionVersion s = 2) \<and>
           (encryptionVersion s = 2 \<longrightarrow>
              req_tag rq = Some (snd (encrypt_v2 sv (BindMessage (dev_id (device s))) None)))"
    by blast
  from sendRequest_tag[OF assms(1) g2, of a p]
  show "\<exists>rq p' a'. emitted (sendRequest sv ms a p s) = emitted s @ [Send (PackDatagram rq) p' a'] \<and>
           (req_tag rq \<noteq> None \<longleftrightarrow> encryptionVersion s = 2) \<and>
           (encryptionVersion s = 2 \<longrightarrow>
              req_tag rq = Some (snd (encrypt_v2 sv ms (dev_key (device s)))))"
    by blast
  show "\<exists>new. emitted (step sv ev s) = emitted s @ new \<and>
           (\<forall>rq p a. Send (PackDatagram rq) p a \<in> set new \<longrightarrow>
              (req_tag rq \<noteq> None \<longleftrightarrow> encryptionVersion (step sv ev s) = 2) \<and>
              (encryptionVersion (step sv ev s) = 2 \<longrightarrow>
                 (\<exists>ms k. req_tag rq = Some (snd (encrypt_v2 sv ms k)))))"
    by (rule step_sends[OF assms])
qed

theorem C7_tag_iff_version_2_witness:
  "(\<forall>ms k. snd (encrypt_v2 sampleServices ms k) \<noteq> []) \<and>
   encryptionVersion (run sampleServices [recv devText, recv bindokText] fresh) = 1 \<and>
   (\<exists>rq p' a'. emitted (sendRequest sampleServices (CmdMessage [JStr ''Pow''] [JNum 1]) None None
        (run sampleServices [recv devText, recv bindokText] fresh)) =
      emitted (run sampleServices [recv devText, recv bindokText] fresh) @ [Send (PackDatagram rq) p' a'] \<and>
      req_tag rq = None) \<and>
   encryptionVersion (run sampleServices [recv devV2Text, recv bindokText] fresh) = 2 \<and>
   (\<exists>rq p' a'. emitted (sendRequest sampleServices (CmdMessage [JStr ''Pow''] [JNum 1]) None None
        (run sampleServices [recv devV2Text, recv bindokText] fresh)) =
      emitted (run sampleServices [recv devV2Text, recv bindokText] fresh) @ [Send (PackDatagram rq) p' a'] \<and>
      req_tag rq = Some ''g2'')"
proof -
  let ?s1 = "run sampleServices [recv devText, recv bindokText] fresh"
  let ?s2 = "run sampleServices [recv devV2Text, recv bindokText] fresh"
  let ?ms = "CmdMessage [JStr ''Pow''] [JNum 1]"
  have g: "\<forall>ms k. snd (encrypt_v2 sampleServices ms k) \<noteq> []"
    by (simp add: sampleServices_def)
  have v1: "encryptionVersion ?s1 = 1" and v2: "encryptionVersion ?s2 = 2"
    by (simp_all add: sample_defs model_defs)
  have o1: "encryptionVersion ?s1 = 1 \<or> encryptionVersion ?s1 = 2"
    and o2: "encryptionVersion ?s2 = 1 \<or> encryptionVersion ?s2 = 2"
    using v1 v2 by simp_all
  have t: "snd (encrypt_v2 sampleServices ?ms (dev_key (device ?s2))) = ''g2''"
    by (simp add: sampleServices_def)
  from C7_tag_iff_version_2[OF o1 g, of ?ms None None PollTick, THEN conjunct2, THEN conjunct1]
  obtain rq1 p1 a1 where
    e1: "emitted (sendRequest sampleServices ?ms None None ?s1) = emitted ?s1 @ [Send (PackDatagram rq1) p1 a1]"
    and i1: "req_tag rq1 \<noteq> None \<longleftrightarrow> encryptionVersion ?s1 = 2"
    by blast
  from i1 v1 have "req_tag rq1 = None"
    by simp
  with e1 have a: "\<exists>rq p' a'. emitted (sendRequest sampleServices ?ms None None ?s1) =
      emitted ?s1 @ [Send (PackDatagram rq) p' a'] \<and> req_tag rq = None"
    by blast
  from C7_tag_iff_version_2[OF o2 g, of ?ms None None PollTick, THEN conjunct2, THEN conjunct1]
  obtain rq2 p2 a2 where
    e2: "emitted (sendRequest sampleServices ?ms None None ?s2) = emitted ?s2 @ [Send (PackDatagram rq2) p2 a2]"
    and j2: "encryptionVersion ?s2 = 2 \<longrightarrow>
               req_tag rq2 = Some (snd (encrypt_v2 sampleServices ?ms (dev_key (device ?s2))))"
    by blast
  from j2 v2 t have "req_tag rq2 = Some ''g2''"
    by simp
  with e2 have b: "\<exists>rq p' a'. emitted (sendRequest sampleServices ?ms None None ?s2) =
      emitted ?s2 @ [Send (PackDatagram rq) p' a'] \<and> req_tag rq = Some ''g2''"
    by blast
  from g v1 v2 a b show ?thesis by blast
qed

end
